theory Spec2Isabelle
  imports Complex_Main "HOL-Library.Word"
begin

section \<open>Data model (package models)\<close>

text \<open>
  A \<^verbatim>\<open>bson.ObjectID\<close> is only ever compared for equality; it is a natural number
  here, and \<^verbatim>\<open>NilObjectID\<close> (all bytes zero, the value a field tagged
  \<^verbatim>\<open>omitempty\<close> leaves out of the document) is 0. Go's \<^verbatim>\<open>int\<close> is a 64-bit
  two's-complement word: \<open>+\<close> and \<open>-\<close> wrap, comparisons are signed. A
  \<^verbatim>\<open>time.Time\<close> is an integer instant. The type of prices, \<^verbatim>\<open>float64\<close>, is the
  parameter \<open>'p\<close>; the only float operation of the stores, the product
  \<^verbatim>\<open>Price * float64(Quantity)\<close>, is a parameter \<open>fmul\<close> of \<open>CreateBooking\<close>.
  The fields Description, Date, Location and ImageURL of an Event are plain payload that
  no store operation below reads; they are left out.
\<close>

type_synonym ObjectID = nat

definition NilObjectID :: ObjectID where
  "NilObjectID = 0"

record 'p TicketInfo =
  Type :: string
  Price :: 'p
  TotalQuantity :: "64 word"
  AvailableQuantity :: "64 word"

record 'p Event =
  ev_ID :: ObjectID
  ev_HostID :: ObjectID
  ev_CategoryName :: string
  ev_Name :: string
  ev_StartTime :: int
  ev_EndTime :: int
  ev_CreatedAt :: int
  ev_Tickets :: "'p TicketInfo list"

record 'p Booking =
  bk_ID :: ObjectID
  bk_UserID :: ObjectID
  bk_EventID :: ObjectID
  bk_TicketType :: string
  bk_TransactionID :: string
  bk_Quantity :: "64 word"
  bk_TotalPaid :: 'p
  bk_Status :: string
  bk_BookedAt :: int

record Category =
  cat_ID :: ObjectID
  cat_Name :: string
  cat_CreatedAt :: int

text \<open>
  The database: the three collections, each a list of documents in natural (insertion)
  order.
\<close>

record 'p db =
  Events :: "'p Event list"
  Bookings :: "'p Booking list"
  Categories :: "Category list"

text \<open>
  The errors the stores build with \<^verbatim>\<open>errors.New\<close>, one constructor per message, and
  the duplicate-key error of an insert whose \<^verbatim>\<open>_id\<close> is already in the collection.
\<close>

datatype error =
    EventNotFound
  | TicketTypeNotFound
  | NotEnoughTickets
  | BookingNotFound
  | BookingAlreadyCancelled
  | InvalidBookingID
  | InvalidEventID
  | CategoryNotFound
  | CategoryNotFoundNamed string
  | CategoryHasEvents
  | EventNameExists
  | CategoryNameExists
  | DuplicateKey

section \<open>The collection primitives of the driver\<close>

text \<open>
  A collection is the list of its documents. Of the errors a call of the driver can
  return, the model has those that depend on the data: no document found, and a
  duplicate \<^verbatim>\<open>_id\<close> on insert. A call that fails for a reason outside the data (the
  network, the server) is not modelled, so a store function whose only errors are of
  that kind, such as \<open>DeleteBookingsByEventID\<close> or \<open>DeleteExpiredEvents\<close>, returns no
  error here.
\<close>

definition FindOne :: "('a \<Rightarrow> bool) \<Rightarrow> 'a list \<Rightarrow> 'a option" where
  "FindOne f c = find f c"

definition Find :: "('a \<Rightarrow> bool) \<Rightarrow> 'a list \<Rightarrow> 'a list" where
  "Find f c = filter f c"

definition CountDocuments :: "('a \<Rightarrow> bool) \<Rightarrow> 'a list \<Rightarrow> nat" where
  "CountDocuments f c = length (filter f c)"

text \<open>\<open>DeleteOne\<close> removes the first matching document; the second component is
  \<^verbatim>\<open>DeletedCount\<close>.\<close>

fun DeleteOne :: "('a \<Rightarrow> bool) \<Rightarrow> 'a list \<Rightarrow> 'a list \<times> nat" where
  "DeleteOne f [] = ([], 0)"
| "DeleteOne f (d # c) =
     (if f d then (c, 1) else (d # fst (DeleteOne f c), snd (DeleteOne f c)))"

definition DeleteMany :: "('a \<Rightarrow> bool) \<Rightarrow> 'a list \<Rightarrow> 'a list \<times> nat" where
  "DeleteMany f c = (filter (\<lambda>d. \<not> f d) c, length (filter f c))"

text \<open>\<open>UpdateOne\<close> applies the update to the first matching document; the second
  component is \<^verbatim>\<open>MatchedCount\<close>.\<close>

fun UpdateOne :: "('a \<Rightarrow> bool) \<Rightarrow> ('a \<Rightarrow> 'a) \<Rightarrow> 'a list \<Rightarrow> 'a list \<times> nat" where
  "UpdateOne f u [] = ([], 0)"
| "UpdateOne f u (d # c) =
     (if f d then (u d # c, 1) else (d # fst (UpdateOne f u c), snd (UpdateOne f u c)))"

text \<open>
  \<open>InsertOne\<close>: a document whose \<^verbatim>\<open>_id\<close> is \<open>NilObjectID\<close> is sent without the field
  and gets the identifier \<open>gen\<close> that the driver generates; the collection's unique index
  on \<^verbatim>\<open>_id\<close> refuses an identifier that is already there. The result is
  \<^verbatim>\<open>InsertedID\<close> and the collection with the document appended.
\<close>

definition InsertOne ::
  "('a \<Rightarrow> ObjectID) \<Rightarrow> (ObjectID \<Rightarrow> 'a \<Rightarrow> 'a) \<Rightarrow> ObjectID \<Rightarrow> 'a \<Rightarrow> 'a list
     \<Rightarrow> error + (ObjectID \<times> 'a list)" where
  "InsertOne idf setid gen doc c =
     (let oid = (if idf doc = NilObjectID then gen else idf doc)
      in if list_ex (\<lambda>d. idf d = oid) c then Inl DuplicateKey
         else Inr (oid, c @ [setid oid doc]))"

text \<open>
  \<^verbatim>\<open>session.WithTransaction(ctx, callback)\<close>: the callback runs on the state it
  finds; when it returns an error the transaction aborts and every write it made is
  discarded, otherwise its writes are committed.
\<close>

definition WithTransaction ::
  "('s \<Rightarrow> error + ('r \<times> 's)) \<Rightarrow> 's \<Rightarrow> (error + 'r) \<times> 's" where
  "WithTransaction callback s =
     (case callback s of
        Inl e \<Rightarrow> (Inl e, s)
      | Inr (r, s') \<Rightarrow> (Inr r, s'))"

section \<open>BookingStore (store/bookingStore.go)\<close>

text \<open>The loop \<^verbatim>\<open>for i, ticket := range event.Tickets\<close> that stops at the first
  ticket of the requested type: the index and the ticket, or \<open>None\<close> when the loop
  ends without a match (\<^verbatim>\<open>selectedTicket == nil\<close>, \<^verbatim>\<open>found == false\<close>).\<close>

fun scanTickets :: "string \<Rightarrow> 'p TicketInfo list \<Rightarrow> nat \<Rightarrow> (nat \<times> 'p TicketInfo) option" where
  "scanTickets ty [] i = None"
| "scanTickets ty (ticket # rest) i =
     (if Type ticket = ty then Some (i, ticket) else scanTickets ty rest (Suc i))"

text \<open>The update \<^verbatim>\<open>{"$set": {"tickets.<i>.available_quantity": v}}\<close>. The index comes
  from a scan of the same document inside the same transaction, so it is in range; out
  of range the model leaves the list alone.\<close>

definition setAvailable :: "nat \<Rightarrow> 64 word \<Rightarrow> 'p Event \<Rightarrow> 'p Event" where
  "setAvailable i v e =
     (if i < length (ev_Tickets e)
      then e\<lparr>ev_Tickets := (ev_Tickets e)[i := (ev_Tickets e ! i)\<lparr>AvailableQuantity := v\<rparr>]\<rparr>
      else e)"

definition createBookingCallback ::
  "('p \<Rightarrow> 64 word \<Rightarrow> 'p) \<Rightarrow> ObjectID \<Rightarrow> int \<Rightarrow> 'p Booking \<Rightarrow> 'p db
     \<Rightarrow> error + ('p Booking \<times> 'p db)" where
  "createBookingCallback fmul gen now booking s =
     (case FindOne (\<lambda>e. ev_ID e = bk_EventID booking) (Events s) of
        None \<Rightarrow> Inl EventNotFound
      | Some event \<Rightarrow>
          (case scanTickets (bk_TicketType booking) (ev_Tickets event) 0 of
             None \<Rightarrow> Inl TicketTypeNotFound
           | Some (ticketIndex, selectedTicket) \<Rightarrow>
               if AvailableQuantity selectedTicket <s bk_Quantity booking
               then Inl NotEnoughTickets
               else
                 let booking1 = booking\<lparr>
                       bk_TotalPaid := fmul (Price selectedTicket) (bk_Quantity booking),
                       bk_BookedAt := now,
                       bk_Status := ''confirmed''\<rparr>
                 in (case InsertOne bk_ID (\<lambda>i b. b\<lparr>bk_ID := i\<rparr>) gen booking1 (Bookings s) of
                       Inl e \<Rightarrow> Inl e
                     | Inr (insertedID, bookings') \<Rightarrow>
                         let booking2 = booking1\<lparr>bk_ID := insertedID\<rparr>;
                             newAvailableQuantity =
                               AvailableQuantity selectedTicket - bk_Quantity booking;
                             events' = fst (UpdateOne (\<lambda>e. ev_ID e = bk_EventID booking)
                                         (setAvailable ticketIndex newAvailableQuantity)
                                         (Events s))
                         in Inr (booking2, s\<lparr>Events := events', Bookings := bookings'\<rparr>))))"

definition CreateBooking ::
  "('p \<Rightarrow> 64 word \<Rightarrow> 'p) \<Rightarrow> ObjectID \<Rightarrow> int \<Rightarrow> 'p Booking \<Rightarrow> 'p db
     \<Rightarrow> (error + 'p Booking) \<times> 'p db" where
  "CreateBooking fmul gen now booking s =
     WithTransaction (createBookingCallback fmul gen now booking) s"

text \<open>\<open>GetBookingByID\<close> takes the outcome of \<^verbatim>\<open>bson.ObjectIDFromHex(bookingID)\<close>:
  \<open>None\<close> for a string that is not an identifier.\<close>

definition GetBookingByID :: "ObjectID option \<Rightarrow> 'p db \<Rightarrow> error + 'p Booking" where
  "GetBookingByID bookingID s =
     (case bookingID of
        None \<Rightarrow> Inl InvalidBookingID
      | Some objID \<Rightarrow>
          (case FindOne (\<lambda>b. bk_ID b = objID) (Bookings s) of
             None \<Rightarrow> Inl BookingNotFound
           | Some booking \<Rightarrow> Inr booking))"

definition GetBookingsByUserID :: "ObjectID \<Rightarrow> 'p db \<Rightarrow> 'p Booking list" where
  "GetBookingsByUserID userID s = Find (\<lambda>b. bk_UserID b = userID) (Bookings s)"

definition GetBookingsByEventID :: "ObjectID \<Rightarrow> 'p db \<Rightarrow> 'p Booking list" where
  "GetBookingsByEventID eventID s = Find (\<lambda>b. bk_EventID b = eventID) (Bookings s)"

definition cancelBookingCallback :: "ObjectID \<Rightarrow> 'p db \<Rightarrow> error + (unit \<times> 'p db)" where
  "cancelBookingCallback bookingID s =
     (case FindOne (\<lambda>b. bk_ID b = bookingID) (Bookings s) of
        None \<Rightarrow> Inl BookingNotFound
      | Some booking \<Rightarrow>
          if bk_Status booking = ''cancelled'' then Inl BookingAlreadyCancelled
          else
            (case FindOne (\<lambda>e. ev_ID e = bk_EventID booking) (Events s) of
               None \<Rightarrow>
                 Inr ((), s\<lparr>Bookings := fst (DeleteOne (\<lambda>b. bk_ID b = bookingID) (Bookings s))\<rparr>)
             | Some event \<Rightarrow>
                 let events' =
                       (case scanTickets (bk_TicketType booking) (ev_Tickets event) 0 of
                          None \<Rightarrow> Events s
                        | Some (ticketIndex, ticket) \<Rightarrow>
                            let newAvailableQuantity =
                                  AvailableQuantity (ev_Tickets event ! ticketIndex)
                                    + bk_Quantity booking
                            in fst (UpdateOne (\<lambda>e. ev_ID e = bk_EventID booking)
                                     (setAvailable ticketIndex newAvailableQuantity)
                                     (Events s)))
                 in Inr ((), s\<lparr>Events := events',
                       Bookings := fst (DeleteOne (\<lambda>b. bk_ID b = bookingID) (Bookings s))\<rparr>)))"

definition CancelBooking :: "ObjectID \<Rightarrow> 'p db \<Rightarrow> (error + unit) \<times> 'p db" where
  "CancelBooking bookingID s = WithTransaction (cancelBookingCallback bookingID) s"

definition GetAllBookings :: "'p db \<Rightarrow> 'p Booking list" where
  "GetAllBookings s = Find (\<lambda>b. True) (Bookings s)"

text \<open>\<open>DeleteBookingsByEventID\<close> returns \<^verbatim>\<open>DeletedCount\<close> and the new state.\<close>

definition DeleteBookingsByEventID :: "ObjectID \<Rightarrow> 'p db \<Rightarrow> nat \<times> 'p db" where
  "DeleteBookingsByEventID eventID s =
     (let r = DeleteMany (\<lambda>b. bk_EventID b = eventID) (Bookings s)
      in (snd r, s\<lparr>Bookings := fst r\<rparr>))"

section \<open>CategoryStore (store/categoryStore.go)\<close>

text \<open>
  \<open>GetCategoryByName\<close> filters with the regular expression
  \<^verbatim>\<open>"^" + regexp.QuoteMeta(categoryName) + "$"\<close> under the option \<^verbatim>\<open>i\<close>: the whole stored
  name has to be the quoted name, letter case aside. \<open>regexMatchI\<close> is that match, with
  the case folding of the ASCII letters.
\<close>

definition toLower :: "char \<Rightarrow> char" where
  "toLower ch =
     (if 65 \<le> (of_char ch :: nat) \<and> (of_char ch :: nat) \<le> 90
      then char_of ((of_char ch :: nat) + 32) else ch)"

definition regexMatchI :: "string \<Rightarrow> string \<Rightarrow> bool" where
  "regexMatchI categoryName stored = (map toLower stored = map toLower categoryName)"

definition CreateCategory ::
  "ObjectID \<Rightarrow> int \<Rightarrow> Category \<Rightarrow> 'p db \<Rightarrow> (error + Category) \<times> 'p db" where
  "CreateCategory gen now category s =
     (case FindOne (\<lambda>c. cat_Name c = cat_Name category) (Categories s) of
        Some existingCategory \<Rightarrow> (Inl CategoryNameExists, s)
      | None \<Rightarrow>
          let category1 = category\<lparr>cat_CreatedAt := now\<rparr>
          in (case InsertOne cat_ID (\<lambda>i c. c\<lparr>cat_ID := i\<rparr>) gen category1 (Categories s) of
                Inl e \<Rightarrow> (Inl e, s)
              | Inr (insertedID, categories') \<Rightarrow>
                  (Inr (category1\<lparr>cat_ID := insertedID\<rparr>), s\<lparr>Categories := categories'\<rparr>)))"

definition GetCategoryByID :: "ObjectID \<Rightarrow> 'p db \<Rightarrow> error + Category" where
  "GetCategoryByID categoryID s =
     (case FindOne (\<lambda>c. cat_ID c = categoryID) (Categories s) of
        None \<Rightarrow> Inl CategoryNotFound
      | Some category \<Rightarrow> Inr category)"

definition GetCategoryByName :: "string \<Rightarrow> 'p db \<Rightarrow> error + Category" where
  "GetCategoryByName categoryName s =
     (case FindOne (\<lambda>c. regexMatchI categoryName (cat_Name c)) (Categories s) of
        None \<Rightarrow> Inl CategoryNotFound
      | Some category \<Rightarrow> Inr category)"

definition getEventsByCategory :: "ObjectID \<Rightarrow> 'p db \<Rightarrow> error + 'p Event list" where
  "getEventsByCategory categoryID s =
     (case GetCategoryByID categoryID s of
        Inl e \<Rightarrow> Inl e
      | Inr category \<Rightarrow> Inr (Find (\<lambda>e. ev_CategoryName e = cat_Name category) (Events s)))"

definition GetCategoryEventCount :: "ObjectID \<Rightarrow> 'p db \<Rightarrow> error + nat" where
  "GetCategoryEventCount categoryID s =
     (case GetCategoryByID categoryID s of
        Inl e \<Rightarrow> Inl e
      | Inr category \<Rightarrow>
          Inr (CountDocuments (\<lambda>e. ev_CategoryName e = cat_Name category) (Events s)))"

definition DeleteCategory :: "ObjectID \<Rightarrow> 'p db \<Rightarrow> (error + unit) \<times> 'p db" where
  "DeleteCategory categoryID s =
     (case GetCategoryEventCount categoryID s of
        Inl e \<Rightarrow> (Inl e, s)
      | Inr count \<Rightarrow>
          if count > 0 then (Inl CategoryHasEvents, s)
          else
            let r = DeleteOne (\<lambda>c. cat_ID c = categoryID) (Categories s)
            in if snd r = 0 then (Inl CategoryNotFound, s\<lparr>Categories := fst r\<rparr>)
               else (Inr (), s\<lparr>Categories := fst r\<rparr>))"

text \<open>The loop \<^verbatim>\<open>for _, event := range events\<close> around \<open>DeleteBookingsByEventID\<close>, as
  the cascade and the expiry sweep both write it.\<close>

fun deleteBookingsOfEvents :: "'p Event list \<Rightarrow> 'p db \<Rightarrow> 'p db" where
  "deleteBookingsOfEvents [] s = s"
| "deleteBookingsOfEvents (event # rest) s =
     deleteBookingsOfEvents rest (snd (DeleteBookingsByEventID (ev_ID event) s))"

text \<open>
  \<open>bookingStore\<close> says whether the store's \<^verbatim>\<open>bookingStore\<close> reference has been set
  (\<^verbatim>\<open>s.bookingStore != nil\<close>); \<^verbatim>\<open>main\<close> sets it for both stores before it serves a
  request. The steps are separate calls on the store, with no transaction around them:
  each one leaves its writes in the state that the next one, or a failure, finds.
\<close>

definition DeleteCategoryWithCascade ::
  "bool \<Rightarrow> ObjectID \<Rightarrow> 'p db \<Rightarrow> (error + unit) \<times> 'p db" where
  "DeleteCategoryWithCascade bookingStore categoryID s =
     (case GetCategoryByID categoryID s of
        Inl e \<Rightarrow> (Inl e, s)
      | Inr category \<Rightarrow>
          (case getEventsByCategory categoryID s of
             Inl e \<Rightarrow> (Inl e, s)
           | Inr events \<Rightarrow>
               let s1 = (if bookingStore then deleteBookingsOfEvents events s else s);
                   s2 = s1\<lparr>Events :=
                          fst (DeleteMany (\<lambda>e. ev_CategoryName e = cat_Name category) (Events s1))\<rparr>;
                   r = DeleteOne (\<lambda>c. cat_ID c = categoryID) (Categories s2)
               in if snd r = 0 then (Inl CategoryNotFound, s2\<lparr>Categories := fst r\<rparr>)
                  else (Inr (), s2\<lparr>Categories := fst r\<rparr>)))"

section \<open>EventStore (store/eventStore.go)\<close>

definition CreateEvent ::
  "ObjectID \<Rightarrow> int \<Rightarrow> 'p Event \<Rightarrow> 'p db \<Rightarrow> (error + 'p Event) \<times> 'p db" where
  "CreateEvent gen now event s =
     (case GetCategoryByName (ev_CategoryName event) s of
        Inl e \<Rightarrow> (Inl (CategoryNotFoundNamed (ev_CategoryName event)), s)
      | Inr category \<Rightarrow>
          (case FindOne (\<lambda>e. ev_Name e = ev_Name event) (Events s) of
             Some existingEvent \<Rightarrow> (Inl EventNameExists, s)
           | None \<Rightarrow>
               let event1 = event\<lparr>ev_CreatedAt := now\<rparr>
               in (case InsertOne ev_ID (\<lambda>i e. e\<lparr>ev_ID := i\<rparr>) gen event1 (Events s) of
                     Inl e \<Rightarrow> (Inl e, s)
                   | Inr (insertedID, events') \<Rightarrow>
                       (Inr (event1\<lparr>ev_ID := insertedID\<rparr>), s\<lparr>Events := events'\<rparr>))))"

text \<open>\<open>GetEventByID\<close> takes the outcome of \<^verbatim>\<open>bson.ObjectIDFromHex(id)\<close>.\<close>

definition GetEventByID :: "ObjectID option \<Rightarrow> 'p db \<Rightarrow> error + 'p Event" where
  "GetEventByID eventID s =
     (case eventID of
        None \<Rightarrow> Inl InvalidEventID
      | Some bsonID \<Rightarrow>
          (case FindOne (\<lambda>e. ev_ID e = bsonID) (Events s) of
             None \<Rightarrow> Inl EventNotFound
           | Some event \<Rightarrow> Inr event))"

text \<open>
  \<open>DeleteExpiredEvents\<close>: \<open>now\<close> is the one reading of \<^verbatim>\<open>time.Now()\<close> that builds the
  filter \<^verbatim>\<open>{"end_time": {"$lt": now}}\<close>, which both the \<open>Find\<close> and the \<open>DeleteMany\<close>
  use. The result is \<^verbatim>\<open>DeletedCount\<close>.
\<close>

definition DeleteExpiredEvents :: "bool \<Rightarrow> int \<Rightarrow> 'p db \<Rightarrow> nat \<times> 'p db" where
  "DeleteExpiredEvents bookingStore now s =
     (let expiredEvents = Find (\<lambda>e. ev_EndTime e < now) (Events s);
          s1 = (if bookingStore then deleteBookingsOfEvents expiredEvents s else s);
          r = DeleteMany (\<lambda>e. ev_EndTime e < now) (Events s1)
      in (snd r, s1\<lparr>Events := fst r\<rparr>))"

definition DeleteEvent :: "bool \<Rightarrow> ObjectID \<Rightarrow> 'p db \<Rightarrow> (error + unit) \<times> 'p db" where
  "DeleteEvent bookingStore eventID s =
     (let s1 = (if bookingStore then snd (DeleteBookingsByEventID eventID s) else s);
          r = DeleteOne (\<lambda>e. ev_ID e = eventID) (Events s1)
      in if snd r = 0 then (Inl EventNotFound, s1\<lparr>Events := fst r\<rparr>)
         else (Inr (), s1\<lparr>Events := fst r\<rparr>))"

text \<open>\<open>UpdateEvent\<close> overwrites the event's fields, the whole ticket list among them.\<close>

definition UpdateEvent :: "'p Event \<Rightarrow> 'p db \<Rightarrow> (error + unit) \<times> 'p db" where
  "UpdateEvent event s =
     (case GetCategoryByName (ev_CategoryName event) s of
        Inl e \<Rightarrow> (Inl (CategoryNotFoundNamed (ev_CategoryName event)), s)
      | Inr category \<Rightarrow>
          let r = UpdateOne (\<lambda>e. ev_ID e = ev_ID event)
                    (\<lambda>e. e\<lparr>ev_Name := ev_Name event,
                            ev_CategoryName := ev_CategoryName event,
                            ev_StartTime := ev_StartTime event,
                            ev_EndTime := ev_EndTime event,
                            ev_Tickets := ev_Tickets event\<rparr>)
                    (Events s)
          in if snd r = 0 then (Inl EventNotFound, s\<lparr>Events := fst r\<rparr>)
             else (Inr (), s\<lparr>Events := fst r\<rparr>))"

section \<open>Scenario A of the specification\<close>

text \<open>
  The category Music and in it an event with the one ticket class VIP (price 100, 10
  of 10 available), a request for 3 VIP tickets that carries no identifier, the
  identifier 7 from the driver and the clock at 42. \<open>fmulExact\<close> is the product of the real numbers: it is what the
  \<^verbatim>\<open>float64\<close> product gives wherever that one is exact, as it is for 100 and 3.
\<close>

definition fmulExact :: "real \<Rightarrow> 64 word \<Rightarrow> real" where
  "fmulExact p q = p * real_of_int (sint q)"

definition ticketVIP :: "real TicketInfo" where
  "ticketVIP = \<lparr>Type = ''VIP'', Price = 100, TotalQuantity = 10, AvailableQuantity = 10\<rparr>"

definition eventA :: "real Event" where
  "eventA = \<lparr>ev_ID = 1, ev_HostID = 9, ev_CategoryName = ''Music'', ev_Name = ''Gig'',
     ev_StartTime = 1000, ev_EndTime = 2000, ev_CreatedAt = 0, ev_Tickets = [ticketVIP]\<rparr>"

definition categoryMusic :: Category where
  "categoryMusic = \<lparr>cat_ID = 3, cat_Name = ''Music'', cat_CreatedAt = 0\<rparr>"

definition dbA :: "real db" where
  "dbA = \<lparr>Events = [eventA], Bookings = [], Categories = [categoryMusic]\<rparr>"

definition requestA :: "real Booking" where
  "requestA = \<lparr>bk_ID = NilObjectID, bk_UserID = 5, bk_EventID = 1, bk_TicketType = ''VIP'',
     bk_TransactionID = ''TXN-00'', bk_Quantity = 3, bk_TotalPaid = 0,
     bk_Status = ''confirmed'', bk_BookedAt = 0\<rparr>"

definition bookingA :: "real Booking" where
  "bookingA = requestA\<lparr>bk_ID := 7, bk_TotalPaid := 300, bk_BookedAt := 42\<rparr>"

definition dbA' :: "real db" where
  "dbA' = \<lparr>Events = [eventA\<lparr>ev_Tickets := [ticketVIP\<lparr>AvailableQuantity := 7\<rparr>]\<rparr>],
     Bookings = [bookingA], Categories = [categoryMusic]\<rparr>"

section \<open>The inventory invariant\<close>

text \<open>The invariant of the specification: in every event, every ticket class has
  \<open>0 \<le> available \<le> total\<close>, as signed 64-bit numbers.\<close>

definition ticketOK :: "'p TicketInfo \<Rightarrow> bool" where
  "ticketOK t = (0 \<le>s AvailableQuantity t \<and> AvailableQuantity t \<le>s TotalQuantity t)"

definition inventoryOK :: "'p db \<Rightarrow> bool" where
  "inventoryOK s = list_all (\<lambda>e. list_all ticketOK (ev_Tickets e)) (Events s)"

text \<open>
  Scenario A after the booking, with the event's tickets written back as 10 of 10 by
  \<open>UpdateEvent\<close> while the booking for 3 is still there, and the state that cancelling
  that booking then leaves.
\<close>

definition dbC :: "real db" where
  "dbC = \<lparr>Events = [eventA], Bookings = [bookingA], Categories = [categoryMusic]\<rparr>"

definition dbC' :: "real db" where
  "dbC' = \<lparr>Events = [eventA\<lparr>ev_Tickets := [ticketVIP\<lparr>AvailableQuantity := 13\<rparr>]\<rparr>],
     Bookings = [], Categories = [categoryMusic]\<rparr>"

section \<open>Serial runs of CreateBooking\<close>

text \<open>
  Under serializable isolation, a set of concurrent \<open>CreateBooking\<close> transactions has
  the outcome of running them one after the other in some order.
  \<open>serialCreateBookings\<close> runs a list of calls in the order of the list, each with the
  identifier the driver generates for it and the reading of the clock it makes, and
  returns the result of every call and the final state. \<open>grantedQuantity\<close> adds up the
  quantities of the calls that succeeded.
\<close>

fun serialCreateBookings ::
  "('p \<Rightarrow> 64 word \<Rightarrow> 'p) \<Rightarrow> (ObjectID \<times> int \<times> 'p Booking) list \<Rightarrow> 'p db
     \<Rightarrow> (error + 'p Booking) list \<times> 'p db" where
  "serialCreateBookings fmul [] s = ([], s)"
| "serialCreateBookings fmul ((gen, now, booking) # calls) s =
     (let r = CreateBooking fmul gen now booking s;
          rest = serialCreateBookings fmul calls (snd r)
      in (fst r # fst rest, snd rest))"

fun grantedQuantity :: "(error + 'p Booking) list \<Rightarrow> int" where
  "grantedQuantity [] = 0"
| "grantedQuantity (Inl e # rs) = grantedQuantity rs"
| "grantedQuantity (Inr booking # rs) = sint (bk_Quantity booking) + grantedQuantity rs"

text \<open>Scenario B of the specification: the request of scenario A with quantity 6.\<close>

definition requestB :: "real Booking" where
  "requestB = requestA\<lparr>bk_Quantity := 6\<rparr>"

section \<open>Unique identifiers and further scenarios\<close>

text \<open>Every collection has a unique index on \<^verbatim>\<open>_id\<close>: no two documents of a collection
  share an identifier. \<open>InsertOne\<close> keeps it so.\<close>

definition uniqueIDs :: "'p db \<Rightarrow> bool" where
  "uniqueIDs s = (distinct (map ev_ID (Events s)) \<and> distinct (map bk_ID (Bookings s))
     \<and> distinct (map cat_ID (Categories s)))"

text \<open>A booking whose event is gone (what \<open>CancelBooking\<close> calls a booking whose event
  doesn't exist).\<close>

definition dbOrphan :: "real db" where
  "dbOrphan = \<lparr>Events = [], Bookings = [bookingA], Categories = [categoryMusic]\<rparr>"

text \<open>
  Scenarios C and D of the specification: the category Music with two events, each with
  one booking; the first event ends at 2000, the second at 9200, and the sweep of
  scenario D runs at 5600, one hour (in seconds) after the one and before the other.
\<close>

definition eventF :: "real Event" where
  "eventF = eventA\<lparr>ev_ID := 2, ev_Name := ''Fair'', ev_EndTime := 9200\<rparr>"

definition bookingF :: "real Booking" where
  "bookingF = bookingA\<lparr>bk_ID := 8, bk_EventID := 2\<rparr>"

definition dbD :: "real db" where
  "dbD = \<lparr>Events = [eventA, eventF], Bookings = [bookingA, bookingF],
     Categories = [categoryMusic]\<rparr>"




text \<open>
  The event of scenario A with three ticket classes, Regular first and then two of type
  VIP, stored behind another event; and the state after 3 VIP tickets have been booked:
  the first VIP class, at position 1, is the one that changes.
\<close>

definition ticketRegular :: "real TicketInfo" where
  "ticketRegular = \<lparr>Type = ''Regular'', Price = 50, TotalQuantity = 20, AvailableQuantity = 20\<rparr>"

definition ticketVIP2 :: "real TicketInfo" where
  "ticketVIP2 = \<lparr>Type = ''VIP'', Price = 200, TotalQuantity = 5, AvailableQuantity = 5\<rparr>"

definition eventR :: "real Event" where
  "eventR = eventA\<lparr>ev_Tickets := [ticketRegular, ticketVIP, ticketVIP2]\<rparr>"

definition dbR :: "real db" where
  "dbR = \<lparr>Events = [eventF, eventR], Bookings = [], Categories = [categoryMusic]\<rparr>"

definition dbR' :: "real db" where
  "dbR' = \<lparr>Events = [eventF, eventR\<lparr>ev_Tickets :=
                [ticketRegular, ticketVIP\<lparr>AvailableQuantity := 7\<rparr>, ticketVIP2]\<rparr>],
     Bookings = [bookingA], Categories = [categoryMusic]\<rparr>"

section \<open>Auxiliary facts\<close>

subsection \<open>64-bit arithmetic without overflow\<close>

lemma sint_sub_exact:
  fixes a b :: "64 word"
  assumes "a \<le>s b" and "0 \<le>s a"
  shows "sint (b - a) = sint b - sint a"
proof -
  have 1: "sint a \<le> sint b" "0 \<le> sint a" using assms by (simp_all add: word_sle_eq)
  have 2: "sint b < 2 ^ 63" using sint_lt [of b] by simp
  have 3: "- (2 ^ 63) \<le> sint a" using sint_ge [of a] by simp
  have "sint (b - a) = signed_take_bit 63 (sint b - sint a)"
    by (simp add: sint_word_ariths)
  also have "\<dots> = sint b - sint a"
    using 1 2 3 by (intro signed_take_bit_int_eq_self) auto
  finally show ?thesis .
qed

lemma sint_add_exact:
  fixes a b c :: "64 word"
  assumes "0 \<le>s a" and "0 \<le>s b" and "sint b + sint a \<le> sint c"
  shows "sint (b + a) = sint b + sint a"
proof -
  have 1: "0 \<le> sint b" "0 \<le> sint a" using assms by (simp_all add: word_sle_eq)
  have 2: "sint c < 2 ^ 63" using sint_lt [of c] by simp
  have "sint (b + a) = signed_take_bit 63 (sint b + sint a)"
    by (simp add: sint_word_ariths)
  also have "\<dots> = sint b + sint a"
    using 1 2 assms(3) by (intro signed_take_bit_int_eq_self) auto
  finally show ?thesis .
qed

subsection \<open>The ticket scan and the collection primitives\<close>

lemma scanTickets_Some:
  "scanTickets ty ts k = Some (i, t) \<Longrightarrow>
     k \<le> i \<and> i - k < length ts \<and> ts ! (i - k) = t \<and> Type t = ty
     \<and> (\<forall>j < i - k. Type (ts ! j) \<noteq> ty)"
proof (induction ts arbitrary: k)
  case Nil
  then show ?case by simp
next
  case (Cons x xs)
  show ?case
  proof (cases "Type x = ty")
    case True
    with Cons.prems show ?thesis by simp
  next
    case False
    with Cons.prems have "scanTickets ty xs (Suc k) = Some (i, t)" by simp
    from Cons.IH [OF this] have ih: "Suc k \<le> i" "i - Suc k < length xs"
      "xs ! (i - Suc k) = t" "Type t = ty" "\<forall>j < i - Suc k. Type (xs ! j) \<noteq> ty"
      by simp_all
    from ih(1) have e: "i - k = Suc (i - Suc k)" by simp
    have "\<forall>j < Suc (i - Suc k). Type ((x # xs) ! j) \<noteq> ty"
      using False ih(5) by (auto simp: nth_Cons split: nat.splits)
    with ih e show ?thesis by simp
  qed
qed

lemma scanTickets_None: "scanTickets ty ts k = None \<longleftrightarrow> (\<forall>t \<in> set ts. Type t \<noteq> ty)"
  by (induction ts arbitrary: k) auto

lemma scanTickets_update:
  "scanTickets ty ts k = Some (i, t) \<Longrightarrow>
     scanTickets ty (ts[i - k := (ts ! (i - k))\<lparr>AvailableQuantity := v\<rparr>]) k
       = Some (i, t\<lparr>AvailableQuantity := v\<rparr>)"
proof (induction ts arbitrary: k)
  case Nil
  then show ?case by simp
next
  case (Cons x xs)
  show ?case
  proof (cases "Type x = ty")
    case True
    with Cons.prems show ?thesis by simp
  next
    case False
    with Cons.prems have s: "scanTickets ty xs (Suc k) = Some (i, t)" by simp
    from scanTickets_Some [OF s] have "Suc k \<le> i" by simp
    then have "i - k = Suc (i - Suc k)" by simp
    with Cons.IH [OF s] False show ?thesis by simp
  qed
qed

lemma FindOne_UpdateOne:
  "FindOne f c = Some e \<Longrightarrow> f (u e) \<Longrightarrow> FindOne f (fst (UpdateOne f u c)) = Some (u e)"
  by (induction c) (auto simp: FindOne_def split: if_splits)

lemma UpdateOne_UpdateOne:
  "FindOne f c = Some e \<Longrightarrow> f (u e) \<Longrightarrow>
     fst (UpdateOne f u' (fst (UpdateOne f u c))) = fst (UpdateOne f (\<lambda>x. u' (u x)) c)"
  by (induction c) (auto simp: FindOne_def split: if_splits)

lemma UpdateOne_same:
  "FindOne f c = Some e \<Longrightarrow> u e = e \<Longrightarrow> fst (UpdateOne f u c) = c"
  by (induction c) (auto simp: FindOne_def split: if_splits)

lemma FindOne_None: "FindOne f c = None \<longleftrightarrow> \<not> list_ex f c"
  by (induction c) (auto simp: FindOne_def)

lemma FindOne_Some_holds: "FindOne f c = Some e \<Longrightarrow> f e \<and> e \<in> set c"
  by (induction c) (auto simp: FindOne_def split: if_splits)

lemma FindOne_append_new:
  "\<not> list_ex f c \<Longrightarrow> f d \<Longrightarrow> FindOne f (c @ [d]) = Some d"
  by (induction c) (auto simp: FindOne_def)

lemma DeleteOne_append_new:
  "\<not> list_ex f c \<Longrightarrow> f d \<Longrightarrow> DeleteOne f (c @ [d]) = (c, 1)"
  by (induction c) auto

subsection \<open>What a call of CreateBooking has done\<close>

lemma CreateBooking_success:
  assumes "CreateBooking fmul gen now b s = (Inr b', s')"
  shows "\<exists>event i t oid.
     FindOne (\<lambda>e. ev_ID e = bk_EventID b) (Events s) = Some event
   \<and> scanTickets (bk_TicketType b) (ev_Tickets event) 0 = Some (i, t)
   \<and> \<not> AvailableQuantity t <s bk_Quantity b
   \<and> oid = (if bk_ID b = NilObjectID then gen else bk_ID b)
   \<and> \<not> list_ex (\<lambda>d. bk_ID d = oid) (Bookings s)
   \<and> b' = b\<lparr>bk_ID := oid, bk_TotalPaid := fmul (Price t) (bk_Quantity b),
             bk_Status := ''confirmed'', bk_BookedAt := now\<rparr>
   \<and> s' = s\<lparr>Events := fst (UpdateOne (\<lambda>e. ev_ID e = bk_EventID b)
                       (setAvailable i (AvailableQuantity t - bk_Quantity b)) (Events s)),
             Bookings := Bookings s @ [b']\<rparr>"
  using assms
  by (auto simp: CreateBooking_def WithTransaction_def createBookingCallback_def
        InsertOne_def Let_def split: option.splits if_splits sum.splits prod.splits)

lemma CreateBooking_failure:
  assumes "CreateBooking fmul gen now b s = (Inl e, s')"
  shows "s' = s"
  using assms
  by (auto simp: CreateBooking_def WithTransaction_def split: sum.splits prod.splits)

lemma setAvailable_ev_ID [simp]: "ev_ID (setAvailable i v e) = ev_ID e"
  by (simp add: setAvailable_def)

lemma setAvailable_twice:
  "setAvailable i v (setAvailable i w e) = setAvailable i v e"
  by (simp add: setAvailable_def)

lemma setAvailable_same:
  "i < length (ev_Tickets e) \<Longrightarrow> AvailableQuantity (ev_Tickets e ! i) = v \<Longrightarrow> setAvailable i v e = e"
  by (simp add: setAvailable_def list_update_same_conv)

lemma scanTickets_setAvailable:
  "scanTickets ty (ev_Tickets e) 0 = Some (i, t) \<Longrightarrow>
   scanTickets ty (ev_Tickets (setAvailable i v e)) 0 = Some (i, t\<lparr>AvailableQuantity := v\<rparr>)"
  using scanTickets_update [of ty "ev_Tickets e" 0 i t v] scanTickets_Some [of ty "ev_Tickets e" 0 i t]
  by (simp add: setAvailable_def)


lemmas scenarioA_defs = fmulExact_def ticketVIP_def eventA_def categoryMusic_def dbA_def
  requestA_def bookingA_def dbA'_def

lemmas store_defs = CreateBooking_def WithTransaction_def createBookingCallback_def
  CancelBooking_def cancelBookingCallback_def GetBookingByID_def
  FindOne_def InsertOne_def NilObjectID_def setAvailable_def

lemma scenarioA_create: "CreateBooking fmulExact 7 42 requestA dbA = (Inr bookingA, dbA')"
  by (simp add: store_defs scenarioA_defs)

section \<open>C3: the result of a successful CreateBooking\<close>

lemma scanTickets_first:
  "i < length ts \<Longrightarrow> Type (ts ! i) = ty \<Longrightarrow> \<forall>j<i. Type (ts ! j) \<noteq> ty \<Longrightarrow>
     scanTickets ty ts k = Some (i + k, ts ! i)"
proof (induction ts arbitrary: i k)
  case Nil
  then show ?case by simp
next
  case (Cons x xs)
  show ?case
  proof (cases i)
    case 0
    with Cons.prems show ?thesis by simp
  next
    case (Suc m)
    with Cons.prems have x: "Type x \<noteq> ty" by auto
    from Cons.prems Suc have "m < length xs" "Type (xs ! m) = ty" "\<forall>j<m. Type (xs ! j) \<noteq> ty"
      by auto
    from Cons.IH [OF this, of "Suc k"] x Suc show ?thesis by simp
  qed
qed

lemma UpdateOne_first:
  "FindOne f c = Some e \<Longrightarrow>
     \<exists>k<length c. c ! k = e \<and> (\<forall>j<k. \<not> f (c ! j)) \<and> fst (UpdateOne f u c) = c[k := u e]"
proof (induction c)
  case Nil
  then show ?case by (simp add: FindOne_def)
next
  case (Cons x xs)
  show ?case
  proof (cases "f x")
    case True
    with Cons.prems have "x = e" by (simp add: FindOne_def)
    with True show ?thesis by (intro exI [of _ 0]) simp
  next
    case False
    with Cons.prems have "FindOne f xs = Some e" by (simp add: FindOne_def)
    from Cons.IH [OF this] obtain k where k: "k < length xs" "xs ! k = e"
      "\<forall>j<k. \<not> f (xs ! j)" "fst (UpdateOne f u xs) = xs[k := u e]" by blast
    have "\<forall>j<Suc k. \<not> f ((x # xs) ! j)"
      using False k(3) by (auto simp: nth_Cons split: nat.splits)
    with k False show ?thesis by (intro exI [of _ "Suc k"]) simp
  qed
qed

lemma scenarioR_create: "CreateBooking fmulExact 7 42 requestA dbR = (Inr bookingA, dbR')"
  by (simp add: store_defs scenarioA_defs dbR_def dbR'_def eventR_def eventF_def
        ticketRegular_def ticketVIP2_def)

text \<open>
  C3. Let \<open>CreateBooking\<close> succeed for a request whose event exists, where \<open>t\<close> is the
  ticket class at position \<open>i\<close> of the event, \<open>t\<close> has the requested type and no class
  before position \<open>i\<close> has it, and the quantity is positive and at most the available
  count of \<open>t\<close>. Then the event read back is the event with, at position \<open>i\<close>, the
  class \<open>t\<close> with its available count lowered by the quantity, exactly (no
  wrap-around), and every other class as it was; the returned booking is the request
  with \<open>TotalPaid\<close> the product of the price of \<open>t\<close> and the quantity, status
  confirmed, the clock's time and the identifier of the insert (the generated one when
  the request has none); the booking is stored under that identifier, after the
  bookings that were there; the first event with the request's event identifier is the
  only event that changes, and the categories are as they were. The witness is
  scenario A (3 of 10 VIP tickets at price 100 give available 7 and total paid 300),
  and the same request against the classes Regular, VIP, VIP of the second event of a
  collection.
\<close>

theorem CreateBooking_result:
  assumes "CreateBooking fmul gen now b s = (Inr b', s')"
    and "FindOne (\<lambda>e. ev_ID e = bk_EventID b) (Events s) = Some event"
    and "i < length (ev_Tickets event)"
    and "ev_Tickets event ! i = t"
    and "Type t = bk_TicketType b"
    and "\<forall>j<i. Type (ev_Tickets event ! j) \<noteq> bk_TicketType b"
    and "0 <s bk_Quantity b"
    and "bk_Quantity b \<le>s AvailableQuantity t"
  shows "GetEventByID (Some (bk_EventID b)) s' =
        Inr (event\<lparr>ev_Tickets := (ev_Tickets event)
               [i := t\<lparr>AvailableQuantity := AvailableQuantity t - bk_Quantity b\<rparr>]\<rparr>)
   \<and> sint (AvailableQuantity t - bk_Quantity b) = sint (AvailableQuantity t) - sint (bk_Quantity b)
   \<and> b' = b\<lparr>bk_ID := (if bk_ID b = NilObjectID then gen else bk_ID b),
             bk_TotalPaid := fmul (Price t) (bk_Quantity b),
             bk_Status := ''confirmed'', bk_BookedAt := now\<rparr>
   \<and> GetBookingByID (Some (bk_ID b')) s' = Inr b'
   \<and> s' = s\<lparr>Events := fst (UpdateOne (\<lambda>e. ev_ID e = bk_EventID b)
                       (setAvailable i (AvailableQuantity t - bk_Quantity b)) (Events s)),
             Bookings := Bookings s @ [b']\<rparr>
   \<and> scanTickets (bk_TicketType b) (ev_Tickets event) 0 = Some (i, t)
   \<and> (\<exists>k<length (Events s). Events s ! k = event
         \<and> (\<forall>j<k. ev_ID (Events s ! j) \<noteq> bk_EventID b)
         \<and> Events s' = (Events s)[k := event\<lparr>ev_Tickets := (ev_Tickets event)
               [i := t\<lparr>AvailableQuantity := AvailableQuantity t - bk_Quantity b\<rparr>]\<rparr>])
   \<and> Bookings s' = Bookings s @ [b']
   \<and> Categories s' = Categories s"
proof -
  have sc: "scanTickets (bk_TicketType b) (ev_Tickets event) 0 = Some (i, t)"
    using scanTickets_first [OF assms(3), of "bk_TicketType b" 0] assms(4,5,6) by simp
  from CreateBooking_success [OF assms(1)] assms(2) sc obtain oid where
    oid: "oid = (if bk_ID b = NilObjectID then gen else bk_ID b)"
    and fresh: "\<not> list_ex (\<lambda>d. bk_ID d = oid) (Bookings s)"
    and b': "b' = b\<lparr>bk_ID := oid, bk_TotalPaid := fmul (Price t) (bk_Quantity b),
             bk_Status := ''confirmed'', bk_BookedAt := now\<rparr>"
    and s': "s' = s\<lparr>Events := fst (UpdateOne (\<lambda>e. ev_ID e = bk_EventID b)
                       (setAvailable i (AvailableQuantity t - bk_Quantity b)) (Events s)),
             Bookings := Bookings s @ [b']\<rparr>"
    by auto
  let ?v = "AvailableQuantity t - bk_Quantity b"
  let ?event' = "event\<lparr>ev_Tickets := (ev_Tickets event)[i := t\<lparr>AvailableQuantity := ?v\<rparr>]\<rparr>"
  have pos: "0 \<le>s bk_Quantity b"
    using assms(7) by (simp add: word_sle_eq word_sless_alt)
  have exact: "sint ?v = sint (AvailableQuantity t) - sint (bk_Quantity b)"
    by (rule sint_sub_exact [OF assms(8) pos])
  have se: "setAvailable i ?v event = ?event'"
    using assms(3,4) by (simp add: setAvailable_def)
  have fe: "ev_ID event = bk_EventID b" using FindOne_Some_holds [OF assms(2)] by simp
  have "FindOne (\<lambda>e. ev_ID e = bk_EventID b) (Events s') = Some (setAvailable i ?v event)"
    using FindOne_UpdateOne [OF assms(2), of "setAvailable i ?v"] fe by (simp add: s')
  then have ge: "GetEventByID (Some (bk_EventID b)) s' = Inr ?event'"
    by (simp add: GetEventByID_def se)
  have id: "bk_ID b' = oid" by (simp add: b')
  have "FindOne (\<lambda>d. bk_ID d = oid) (Bookings s') = Some b'"
    using FindOne_append_new [OF fresh, of b'] id by (simp add: s')
  then have gb: "GetBookingByID (Some (bk_ID b')) s' = Inr b'"
    by (simp add: GetBookingByID_def id)
  from UpdateOne_first [OF assms(2), of "setAvailable i ?v"]
  have ev: "\<exists>k<length (Events s). Events s ! k = event
         \<and> (\<forall>j<k. ev_ID (Events s ! j) \<noteq> bk_EventID b)
         \<and> Events s' = (Events s)[k := ?event']"
    by (simp add: s' se)
  have bc: "Bookings s' = Bookings s @ [b']" "Categories s' = Categories s"
    by (simp_all add: s')
  from ge exact b' oid gb s' sc ev bc show ?thesis by blast
qed

theorem CreateBooking_result_witness:
  "CreateBooking fmulExact 7 42 requestA dbA = (Inr bookingA, dbA')
   \<and> GetEventByID (Some 1) dbA' =
        Inr (eventA\<lparr>ev_Tickets := [ticketVIP\<lparr>AvailableQuantity := 7\<rparr>]\<rparr>)
   \<and> bookingA = requestA\<lparr>bk_ID := 7, bk_TotalPaid := 300, bk_Status := ''confirmed'',
        bk_BookedAt := 42\<rparr>
   \<and> GetBookingByID (Some 7) dbA' = Inr bookingA
   \<and> CreateBooking fmulExact 7 42 requestA dbR = (Inr bookingA, dbR')
   \<and> GetEventByID (Some 1) dbR' =
        Inr (eventR\<lparr>ev_Tickets :=
               [ticketRegular, ticketVIP\<lparr>AvailableQuantity := 7\<rparr>, ticketVIP2]\<rparr>)
   \<and> GetBookingByID (Some 7) dbR' = Inr bookingA"
proof -
  have e: "FindOne (\<lambda>e. ev_ID e = bk_EventID requestA) (Events dbA) = Some eventA"
    by (simp add: FindOne_def scenarioA_defs)
  have t: "0 < length (ev_Tickets eventA)" "ev_Tickets eventA ! 0 = ticketVIP"
    "Type ticketVIP = bk_TicketType requestA"
    "\<forall>j<0. Type (ev_Tickets eventA ! j) \<noteq> bk_TicketType requestA"
    by (simp_all add: scenarioA_defs)
  have q: "0 <s bk_Quantity requestA"
    by (simp add: requestA_def word_sless_alt)
  have a: "bk_Quantity requestA \<le>s AvailableQuantity ticketVIP"
    by (simp add: requestA_def ticketVIP_def)
  have eR: "FindOne (\<lambda>e. ev_ID e = bk_EventID requestA) (Events dbR) = Some eventR"
    by (simp add: FindOne_def scenarioA_defs dbR_def eventR_def eventF_def)
  have tR: "1 < length (ev_Tickets eventR)" "ev_Tickets eventR ! 1 = ticketVIP"
    "\<forall>j<1. Type (ev_Tickets eventR ! j) \<noteq> bk_TicketType requestA"
    by (simp_all add: scenarioA_defs eventR_def ticketRegular_def)
  from CreateBooking_result [OF scenarioA_create e t q a]
  have A: "GetEventByID (Some (bk_EventID requestA)) dbA' =
        Inr (eventA\<lparr>ev_Tickets := (ev_Tickets eventA)
               [0 := ticketVIP\<lparr>AvailableQuantity := AvailableQuantity ticketVIP - bk_Quantity requestA\<rparr>]\<rparr>)"
    "GetBookingByID (Some (bk_ID bookingA)) dbA' = Inr bookingA"
    by blast+
  from CreateBooking_result [OF scenarioR_create eR tR(1,2) t(3) tR(3) q a]
  have R: "GetEventByID (Some (bk_EventID requestA)) dbR' =
        Inr (eventR\<lparr>ev_Tickets := (ev_Tickets eventR)
               [1 := ticketVIP\<lparr>AvailableQuantity := AvailableQuantity ticketVIP - bk_Quantity requestA\<rparr>]\<rparr>)"
    "GetBookingByID (Some (bk_ID bookingA)) dbR' = Inr bookingA"
    by blast+
  have ids: "bk_EventID requestA = 1" "bk_ID bookingA = 7"
    "AvailableQuantity ticketVIP - bk_Quantity requestA = 7"
    "ev_Tickets eventA = [ticketVIP]"
    "ev_Tickets eventR = [ticketRegular, ticketVIP, ticketVIP2]"
    "bookingA = requestA\<lparr>bk_ID := 7, bk_TotalPaid := 300, bk_Status := ''confirmed'',
        bk_BookedAt := 42\<rparr>"
    by (simp_all add: requestA_def bookingA_def ticketVIP_def eventA_def eventR_def)
  from A R ids scenarioA_create scenarioR_create show ?thesis
    by simp
qed

section \<open>C5: booking and cancelling again\<close>

text \<open>
  C5. Whenever \<open>CreateBooking\<close> succeeds, \<open>CancelBooking\<close> on the identifier of the
  returned booking, run on the state that \<open>CreateBooking\<close> left, succeeds and gives
  back the state from before the booking: every available count is what it was, and
  \<open>GetBookingByID\<close> on that identifier then fails with \<open>BookingNotFound\<close>. This holds
  for every ticket type and quantity, so for VIP and 3.
\<close>

theorem CreateBooking_CancelBooking_roundtrip:
  assumes "CreateBooking fmul gen now b s = (Inr b', s')"
  shows "CancelBooking (bk_ID b') s' = (Inr (), s)
       \<and> GetBookingByID (Some (bk_ID b')) (snd (CancelBooking (bk_ID b') s')) = Inl BookingNotFound"
proof -
  from CreateBooking_success [OF assms] obtain event i t oid where
    ev: "FindOne (\<lambda>e. ev_ID e = bk_EventID b) (Events s) = Some event"
    and sc: "scanTickets (bk_TicketType b) (ev_Tickets event) 0 = Some (i, t)"
    and oid: "oid = (if bk_ID b = NilObjectID then gen else bk_ID b)"
    and fresh: "\<not> list_ex (\<lambda>d. bk_ID d = oid) (Bookings s)"
    and b': "b' = b\<lparr>bk_ID := oid, bk_TotalPaid := fmul (Price t) (bk_Quantity b),
             bk_Status := ''confirmed'', bk_BookedAt := now\<rparr>"
    and s': "s' = s\<lparr>Events := fst (UpdateOne (\<lambda>e. ev_ID e = bk_EventID b)
                       (setAvailable i (AvailableQuantity t - bk_Quantity b)) (Events s)),
             Bookings := Bookings s @ [b']\<rparr>"
    by blast
  let ?f = "\<lambda>e. ev_ID e = bk_EventID b"
  let ?v = "AvailableQuantity t - bk_Quantity b"
  let ?event' = "setAvailable i ?v event"
  have id: "bk_ID b' = oid" by (simp add: b')
  have fe: "?f event" using FindOne_Some_holds [OF ev] by simp
  have fb: "FindOne (\<lambda>d. bk_ID d = oid) (Bookings s') = Some b'"
    using FindOne_append_new [OF fresh, of b'] id by (simp add: s')
  have db: "fst (DeleteOne (\<lambda>d. bk_ID d = oid) (Bookings s')) = Bookings s"
    using DeleteOne_append_new [OF fresh, of b'] id by (simp add: s')
  have fe': "FindOne ?f (Events s') = Some ?event'"
    using FindOne_UpdateOne [OF ev, of "setAvailable i ?v"] fe by (simp add: s')
  have sc': "scanTickets (bk_TicketType b) (ev_Tickets ?event') 0
               = Some (i, t\<lparr>AvailableQuantity := ?v\<rparr>)"
    by (rule scanTickets_setAvailable [OF sc])
  from scanTickets_Some [OF sc] have il: "i < length (ev_Tickets event)"
    and it: "ev_Tickets event ! i = t" by simp_all
  have av: "AvailableQuantity (ev_Tickets ?event' ! i) + bk_Quantity b = AvailableQuantity t"
    using il it by (simp add: setAvailable_def)
  have restore: "fst (UpdateOne ?f (setAvailable i (AvailableQuantity t)) (Events s')) = Events s"
  proof -
    have "fst (UpdateOne ?f (setAvailable i (AvailableQuantity t)) (Events s'))
        = fst (UpdateOne ?f (\<lambda>x. setAvailable i (AvailableQuantity t) (setAvailable i ?v x)) (Events s))"
      using UpdateOne_UpdateOne [OF ev, of "setAvailable i ?v"] fe by (simp add: s')
    also have "\<dots> = Events s"
      using il it by (intro UpdateOne_same [OF ev]) (simp add: setAvailable_twice setAvailable_same)
    finally show ?thesis .
  qed
  have tt: "bk_TicketType b' = bk_TicketType b" "bk_EventID b' = bk_EventID b"
    "bk_Quantity b' = bk_Quantity b" "bk_Status b' = ''confirmed''"
    by (simp_all add: b')
  have c: "CancelBooking (bk_ID b') s' = (Inr (), s)"
    unfolding CancelBooking_def WithTransaction_def cancelBookingCallback_def id
    by (simp add: fb tt fe' sc' av restore db Let_def) (simp add: s')
  have "GetBookingByID (Some oid) s = Inl BookingNotFound"
    using fresh by (simp add: GetBookingByID_def FindOne_None [symmetric] split: option.splits)
  with c id show ?thesis by simp
qed

theorem CreateBooking_CancelBooking_roundtrip_witness:
  "CreateBooking fmulExact 7 42 requestA dbA = (Inr bookingA, dbA')
   \<and> CancelBooking 7 dbA' = (Inr (), dbA)
   \<and> GetBookingByID (Some 7) (snd (CancelBooking 7 dbA')) = Inl BookingNotFound"
proof -
  have id: "bk_ID bookingA = 7"
    by (simp add: bookingA_def)
  from CreateBooking_CancelBooking_roundtrip [OF scenarioA_create]
  have "CancelBooking 7 dbA' = (Inr (), dbA)
      \<and> GetBookingByID (Some 7) (snd (CancelBooking 7 dbA')) = Inl BookingNotFound"
    unfolding id .
  with scenarioA_create show ?thesis by blast
qed

section \<open>C4: the failures of CreateBooking\<close>

text \<open>
  C4. \<open>CreateBooking\<close> fails with \<open>EventNotFound\<close> when no event has the request's
  event identifier, with \<open>TicketTypeNotFound\<close> when the event is there and none of its
  ticket classes has the requested type, and with \<open>NotEnoughTickets\<close> (the
  specification's InsufficientInventory) when the first class of that type has fewer
  tickets available than the request asks for; whenever it fails, with whatever error,
  the state it leaves is the state it found: no booking inserted, no ticket class
  changed.
\<close>

theorem CreateBooking_failures:
  assumes "CreateBooking fmul gen now b s = (r, s')"
  shows "(FindOne (\<lambda>e. ev_ID e = bk_EventID b) (Events s) = None \<longrightarrow> r = Inl EventNotFound)
   \<and> (\<forall>event. FindOne (\<lambda>e. ev_ID e = bk_EventID b) (Events s) = Some event
         \<longrightarrow> (\<forall>t \<in> set (ev_Tickets event). Type t \<noteq> bk_TicketType b)
         \<longrightarrow> r = Inl TicketTypeNotFound)
   \<and> (\<forall>event i t. FindOne (\<lambda>e. ev_ID e = bk_EventID b) (Events s) = Some event
         \<longrightarrow> scanTickets (bk_TicketType b) (ev_Tickets event) 0 = Some (i, t)
         \<longrightarrow> AvailableQuantity t <s bk_Quantity b
         \<longrightarrow> r = Inl NotEnoughTickets)
   \<and> (\<forall>e. r = Inl e \<longrightarrow> s' = s)"
proof (intro conjI allI impI)
  assume "FindOne (\<lambda>e. ev_ID e = bk_EventID b) (Events s) = None"
  with assms show "r = Inl EventNotFound"
    by (simp add: CreateBooking_def WithTransaction_def createBookingCallback_def)
next
  fix event
  assume "FindOne (\<lambda>e. ev_ID e = bk_EventID b) (Events s) = Some event"
    and "\<forall>t \<in> set (ev_Tickets event). Type t \<noteq> bk_TicketType b"
  moreover from this have "scanTickets (bk_TicketType b) (ev_Tickets event) 0 = None"
    by (simp add: scanTickets_None)
  ultimately show "r = Inl TicketTypeNotFound"
    using assms by (simp add: CreateBooking_def WithTransaction_def createBookingCallback_def)
next
  fix event i t
  assume "FindOne (\<lambda>e. ev_ID e = bk_EventID b) (Events s) = Some event"
    and "scanTickets (bk_TicketType b) (ev_Tickets event) 0 = Some (i, t)"
    and "AvailableQuantity t <s bk_Quantity b"
  with assms show "r = Inl NotEnoughTickets"
    by (simp add: CreateBooking_def WithTransaction_def createBookingCallback_def)
next
  fix e
  assume "r = Inl e"
  with assms show "s' = s"
    by (simp add: CreateBooking_failure)
qed

theorem CreateBooking_failures_witness:
  "CreateBooking fmulExact 7 42 (requestA\<lparr>bk_EventID := 2\<rparr>) dbA = (Inl EventNotFound, dbA)
   \<and> CreateBooking fmulExact 7 42 (requestA\<lparr>bk_TicketType := ''Student''\<rparr>) dbA
        = (Inl TicketTypeNotFound, dbA)
   \<and> CreateBooking fmulExact 7 42 (requestA\<lparr>bk_Quantity := 11\<rparr>) dbA
        = (Inl NotEnoughTickets, dbA)"
proof -
  have 1: "FindOne (\<lambda>e. ev_ID e = bk_EventID (requestA\<lparr>bk_EventID := 2\<rparr>)) (Events dbA) = None"
    by (simp add: FindOne_def scenarioA_defs)
  have 2: "FindOne (\<lambda>e. ev_ID e = bk_EventID (requestA\<lparr>bk_TicketType := ''Student''\<rparr>))
             (Events dbA) = Some eventA"
    "\<forall>t \<in> set (ev_Tickets eventA).
        Type t \<noteq> bk_TicketType (requestA\<lparr>bk_TicketType := ''Student''\<rparr>)"
    by (simp_all add: FindOne_def scenarioA_defs)
  have 3: "FindOne (\<lambda>e. ev_ID e = bk_EventID (requestA\<lparr>bk_Quantity := 11\<rparr>))
             (Events dbA) = Some eventA"
    "scanTickets (bk_TicketType (requestA\<lparr>bk_Quantity := 11\<rparr>)) (ev_Tickets eventA) 0
       = Some (0, ticketVIP)"
    "AvailableQuantity ticketVIP <s bk_Quantity (requestA\<lparr>bk_Quantity := 11\<rparr>)"
    by (simp_all add: FindOne_def scenarioA_defs)
  obtain r1 s1 where c1: "CreateBooking fmulExact 7 42 (requestA\<lparr>bk_EventID := 2\<rparr>) dbA = (r1, s1)"
    by (cases "CreateBooking fmulExact 7 42 (requestA\<lparr>bk_EventID := 2\<rparr>) dbA")
  obtain r2 s2 where c2: "CreateBooking fmulExact 7 42 (requestA\<lparr>bk_TicketType := ''Student''\<rparr>) dbA = (r2, s2)"
    by (cases "CreateBooking fmulExact 7 42 (requestA\<lparr>bk_TicketType := ''Student''\<rparr>) dbA")
  obtain r3 s3 where c3: "CreateBooking fmulExact 7 42 (requestA\<lparr>bk_Quantity := 11\<rparr>) dbA = (r3, s3)"
    by (cases "CreateBooking fmulExact 7 42 (requestA\<lparr>bk_Quantity := 11\<rparr>) dbA")
  from CreateBooking_failures [OF c1] 1 have "r1 = Inl EventNotFound \<and> s1 = dbA" by blast
  moreover from CreateBooking_failures [OF c2] 2 have "r2 = Inl TicketTypeNotFound \<and> s2 = dbA" by blast
  moreover from CreateBooking_failures [OF c3] 3 have "r3 = Inl NotEnoughTickets \<and> s3 = dbA" by blast
  ultimately show ?thesis using c1 c2 c3 by simp
qed

section \<open>C6: cancelling twice\<close>

lemma DeleteOne_distinct_gone:
  "distinct (map idf c) \<Longrightarrow> \<not> list_ex (\<lambda>d. idf d = x) (fst (DeleteOne (\<lambda>d. idf d = x) c))"
  by (induction c) (auto simp: list_ex_iff image_iff)

lemma CancelBooking_success:
  assumes "CancelBooking bookingID s = (Inr u, s')"
  shows "\<exists>booking. FindOne (\<lambda>b. bk_ID b = bookingID) (Bookings s) = Some booking
     \<and> bk_Status booking \<noteq> ''cancelled''
     \<and> Bookings s' = fst (DeleteOne (\<lambda>b. bk_ID b = bookingID) (Bookings s))
     \<and> Categories s' = Categories s
     \<and> Events s' =
         (case FindOne (\<lambda>e. ev_ID e = bk_EventID booking) (Events s) of
            None \<Rightarrow> Events s
          | Some event \<Rightarrow>
              (case scanTickets (bk_TicketType booking) (ev_Tickets event) 0 of
                 None \<Rightarrow> Events s
               | Some (i, t) \<Rightarrow>
                   fst (UpdateOne (\<lambda>e. ev_ID e = bk_EventID booking)
                     (setAvailable i (AvailableQuantity t + bk_Quantity booking)) (Events s))))"
proof -
  from assms obtain booking where
    fb: "FindOne (\<lambda>b. bk_ID b = bookingID) (Bookings s) = Some booking"
    by (auto simp: CancelBooking_def WithTransaction_def cancelBookingCallback_def
          split: option.splits)
  have st: "bk_Status booking \<noteq> ''cancelled''"
    using assms fb
    by (auto simp: CancelBooking_def WithTransaction_def cancelBookingCallback_def
          split: if_splits)
  show ?thesis
  proof (cases "FindOne (\<lambda>e. ev_ID e = bk_EventID booking) (Events s)")
    case None
    with assms fb st show ?thesis
      by (auto simp: CancelBooking_def WithTransaction_def cancelBookingCallback_def)
  next
    case (Some event)
    show ?thesis
    proof (cases "scanTickets (bk_TicketType booking) (ev_Tickets event) 0")
      case None
      with assms fb st Some show ?thesis
        by (auto simp: CancelBooking_def WithTransaction_def cancelBookingCallback_def)
    next
      case sc: (Some p)
      obtain i t where p: "p = (i, t)" by (cases p)
      from scanTickets_Some [OF sc [unfolded p]] have "ev_Tickets event ! i = t" by simp
      with assms fb st Some sc p show ?thesis
        by (auto simp: CancelBooking_def WithTransaction_def cancelBookingCallback_def Let_def)
    qed
  qed
qed


lemma scenarioA_cancel: "CancelBooking 7 dbA' = (Inr (), dbA)"
  by (simp add: store_defs scenarioA_defs)

text \<open>
  C6. In a bookings collection whose identifiers are unique (the collection's index on
  \<^verbatim>\<open>_id\<close>), after \<open>CancelBooking\<close> has succeeded on an identifier, a second call on the
  same identifier fails with \<open>BookingNotFound\<close>, not with \<open>BookingAlreadyCancelled\<close>,
  and changes nothing: the first call deleted the document.
\<close>

theorem CancelBooking_twice:
  assumes "distinct (map bk_ID (Bookings s))"
    and "CancelBooking bookingID s = (Inr (), s')"
  shows "CancelBooking bookingID s' = (Inl BookingNotFound, s')"
proof -
  from CancelBooking_success [OF assms(2)]
  have "Bookings s' = fst (DeleteOne (\<lambda>b. bk_ID b = bookingID) (Bookings s))" by blast
  with DeleteOne_distinct_gone [OF assms(1), of bookingID]
  have "FindOne (\<lambda>b. bk_ID b = bookingID) (Bookings s') = None"
    by (simp add: FindOne_None)
  then show ?thesis
    by (simp add: CancelBooking_def WithTransaction_def cancelBookingCallback_def)
qed


theorem CancelBooking_twice_witness:
  "distinct (map bk_ID (Bookings dbA'))
   \<and> CancelBooking 7 dbA' = (Inr (), dbA)
   \<and> CancelBooking 7 dbA = (Inl BookingNotFound, dbA)"
proof -
  have d: "distinct (map bk_ID (Bookings dbA'))"
    by (simp add: dbA'_def)
  from CancelBooking_twice [OF d scenarioA_cancel] d scenarioA_cancel
  show ?thesis by blast
qed

section \<open>C2: the inventory invariant\<close>

lemma regexMatchI_Music: "regexMatchI ''Music'' ''Music''"
  by (simp add: regexMatchI_def)

lemma dbC_reached: "UpdateEvent eventA dbA' = (Inr (), dbC)"
  by (simp add: UpdateEvent_def GetCategoryByName_def FindOne_def regexMatchI_Music
        scenarioA_defs dbC_def)


lemma list_all_UpdateOne:
  "list_all P c \<Longrightarrow> FindOne f c = Some e \<Longrightarrow> P (u e) \<Longrightarrow> list_all P (fst (UpdateOne f u c))"
  by (induction c) (auto simp: FindOne_def split: if_splits)

lemma list_all_DeleteOne:
  "list_all P c \<Longrightarrow> list_all P (fst (DeleteOne f c))"
  by (induction c) auto

lemma list_all_DeleteMany:
  "list_all P c \<Longrightarrow> list_all P (fst (DeleteMany f c))"
  by (simp add: DeleteMany_def list_all_iff)

lemma ticketOK_setAvailable:
  assumes "list_all ticketOK (ev_Tickets e)" and "i < length (ev_Tickets e)"
    and "ticketOK ((ev_Tickets e ! i)\<lparr>AvailableQuantity := v\<rparr>)"
  shows "list_all ticketOK (ev_Tickets (setAvailable i v e))"
  using assms by (auto simp: setAvailable_def list_all_iff dest!: set_update_subset_insert [THEN subsetD])

lemma Events_deleteBookingsOfEvents [simp]:
  "Events (deleteBookingsOfEvents es s) = Events s"
  by (induction es arbitrary: s) (simp_all add: DeleteBookingsByEventID_def Let_def)

lemma Categories_deleteBookingsOfEvents [simp]:
  "Categories (deleteBookingsOfEvents es s) = Categories s"
  by (induction es arbitrary: s) (simp_all add: DeleteBookingsByEventID_def Let_def)

lemma Bookings_deleteBookingsOfEvents:
  "Bookings (deleteBookingsOfEvents es s)
     = filter (\<lambda>b. bk_EventID b \<notin> ev_ID ` set es) (Bookings s)"
proof (induction es arbitrary: s)
  case Nil
  then show ?case by simp
next
  case (Cons e es)
  show ?case
    by (simp add: Cons.IH DeleteBookingsByEventID_def DeleteMany_def Let_def conj_commute)
qed

lemma inventoryOK_CreateBooking:
  assumes "inventoryOK s" and "0 \<le>s bk_Quantity b"
  shows "inventoryOK (snd (CreateBooking fmul gen now b s))"
proof (cases "CreateBooking fmul gen now b s")
  case (Pair r s')
  show ?thesis
  proof (cases r)
    case (Inl e)
    with Pair CreateBooking_failure [of fmul gen now b s e s'] assms(1) show ?thesis by simp
  next
    case (Inr b')
    with Pair have c: "CreateBooking fmul gen now b s = (Inr b', s')" by simp
    from CreateBooking_success [OF c] obtain event i t where
      ev: "FindOne (\<lambda>e. ev_ID e = bk_EventID b) (Events s) = Some event"
      and sc: "scanTickets (bk_TicketType b) (ev_Tickets event) 0 = Some (i, t)"
      and av: "\<not> AvailableQuantity t <s bk_Quantity b"
      and s': "Events s' = fst (UpdateOne (\<lambda>e. ev_ID e = bk_EventID b)
                 (setAvailable i (AvailableQuantity t - bk_Quantity b)) (Events s))"
      by auto
    let ?v = "AvailableQuantity t - bk_Quantity b"
    from scanTickets_Some [OF sc] have il: "i < length (ev_Tickets event)"
      and it: "ev_Tickets event ! i = t" by simp_all
    have all: "list_all (\<lambda>e. list_all ticketOK (ev_Tickets e)) (Events s)"
      using assms(1) by (simp add: inventoryOK_def)
    have evok: "list_all ticketOK (ev_Tickets event)"
      using all FindOne_Some_holds [OF ev] by (auto simp: list_all_iff)
    then have tok: "ticketOK t" using il it by (auto simp: list_all_iff)
    have le: "bk_Quantity b \<le>s AvailableQuantity t"
      using av by (simp add: word_sle_eq word_sless_alt)
    have "sint ?v = sint (AvailableQuantity t) - sint (bk_Quantity b)"
      by (rule sint_sub_exact [OF le assms(2)])
    then have "ticketOK (t\<lparr>AvailableQuantity := ?v\<rparr>)"
      using tok le assms(2) by (simp add: ticketOK_def word_sle_eq)
    then have "list_all ticketOK (ev_Tickets (setAvailable i ?v event))"
      using ticketOK_setAvailable [OF evok il, of ?v] it by simp
    from list_all_UpdateOne [OF all ev, of "setAvailable i ?v", OF this]
    show ?thesis by (simp add: Pair inventoryOK_def s')
  qed
qed

lemma inventoryOK_CancelBooking:
  assumes "inventoryOK s"
    and "\<And>booking event i t.
       FindOne (\<lambda>b. bk_ID b = bookingID) (Bookings s) = Some booking \<Longrightarrow>
       FindOne (\<lambda>e. ev_ID e = bk_EventID booking) (Events s) = Some event \<Longrightarrow>
       scanTickets (bk_TicketType booking) (ev_Tickets event) 0 = Some (i, t) \<Longrightarrow>
       0 \<le>s bk_Quantity booking
       \<and> sint (AvailableQuantity t) + sint (bk_Quantity booking) \<le> sint (TotalQuantity t)"
  shows "inventoryOK (snd (CancelBooking bookingID s))"
proof (cases "CancelBooking bookingID s")
  case (Pair r s')
  show ?thesis
  proof (cases r)
    case (Inl e)
    with Pair have "s' = s"
      by (auto simp: CancelBooking_def WithTransaction_def split: sum.splits prod.splits)
    with Pair assms(1) show ?thesis by simp
  next
    case (Inr u)
    with Pair have c: "CancelBooking bookingID s = (Inr u, s')" by simp
    from CancelBooking_success [OF c] obtain booking where
      fb: "FindOne (\<lambda>b. bk_ID b = bookingID) (Bookings s) = Some booking"
      and es: "Events s' =
         (case FindOne (\<lambda>e. ev_ID e = bk_EventID booking) (Events s) of
            None \<Rightarrow> Events s
          | Some event \<Rightarrow>
              (case scanTickets (bk_TicketType booking) (ev_Tickets event) 0 of
                 None \<Rightarrow> Events s
               | Some (i, t) \<Rightarrow>
                   fst (UpdateOne (\<lambda>e. ev_ID e = bk_EventID booking)
                     (setAvailable i (AvailableQuantity t + bk_Quantity booking)) (Events s))))"
      by blast
    have all: "list_all (\<lambda>e. list_all ticketOK (ev_Tickets e)) (Events s)"
      using assms(1) by (simp add: inventoryOK_def)
    have "list_all (\<lambda>e. list_all ticketOK (ev_Tickets e)) (Events s')"
    proof (cases "FindOne (\<lambda>e. ev_ID e = bk_EventID booking) (Events s)")
      case None
      with es all show ?thesis by simp
    next
      case (Some event)
      show ?thesis
      proof (cases "scanTickets (bk_TicketType booking) (ev_Tickets event) 0")
        case None
        with es all Some show ?thesis by simp
      next
        case sc: (Some p)
        obtain i t where p: "p = (i, t)" by (cases p)
        let ?v = "AvailableQuantity t + bk_Quantity booking"
        from sc p have sc': "scanTickets (bk_TicketType booking) (ev_Tickets event) 0 = Some (i, t)"
          by simp
        from scanTickets_Some [OF sc'] have il: "i < length (ev_Tickets event)"
          and it: "ev_Tickets event ! i = t" by simp_all
        have evok: "list_all ticketOK (ev_Tickets event)"
          using all FindOne_Some_holds [OF Some] by (auto simp: list_all_iff)
        then have tok: "ticketOK t" using il it by (auto simp: list_all_iff)
        from assms(2) [OF fb Some sc'] have q: "0 \<le>s bk_Quantity booking"
          and bound: "sint (AvailableQuantity t) + sint (bk_Quantity booking) \<le> sint (TotalQuantity t)"
          by simp_all
        have a0: "0 \<le>s AvailableQuantity t" using tok by (simp add: ticketOK_def)
        have "sint ?v = sint (AvailableQuantity t) + sint (bk_Quantity booking)"
          by (rule sint_add_exact [OF q a0 bound])
        then have "ticketOK (t\<lparr>AvailableQuantity := ?v\<rparr>)"
          using a0 q bound by (simp add: ticketOK_def word_sle_eq)
        then have "list_all ticketOK (ev_Tickets (setAvailable i ?v event))"
          using ticketOK_setAvailable [OF evok il, of ?v] it by simp
        from list_all_UpdateOne [OF all Some, of "setAvailable i ?v", OF this]
        show ?thesis by (simp add: es Some sc p)
      qed
    qed
    then show ?thesis by (simp add: Pair inventoryOK_def)
  qed
qed

lemma inventoryOK_DeleteBookingsByEventID:
  "inventoryOK s \<Longrightarrow> inventoryOK (snd (DeleteBookingsByEventID eventID s))"
  by (simp add: inventoryOK_def DeleteBookingsByEventID_def Let_def)

lemma inventoryOK_DeleteEvent:
  "inventoryOK s \<Longrightarrow> inventoryOK (snd (DeleteEvent bookingStore eventID s))"
  by (simp add: inventoryOK_def DeleteEvent_def DeleteBookingsByEventID_def Let_def
        list_all_DeleteOne)

lemma inventoryOK_DeleteExpiredEvents:
  "inventoryOK s \<Longrightarrow> inventoryOK (snd (DeleteExpiredEvents bookingStore now s))"
  by (simp add: inventoryOK_def DeleteExpiredEvents_def Let_def list_all_DeleteMany)

lemma inventoryOK_DeleteCategory:
  "inventoryOK s \<Longrightarrow> inventoryOK (snd (DeleteCategory categoryID s))"
  by (simp add: inventoryOK_def DeleteCategory_def Let_def split: sum.splits)

lemma inventoryOK_DeleteCategoryWithCascade:
  "inventoryOK s \<Longrightarrow> inventoryOK (snd (DeleteCategoryWithCascade bookingStore categoryID s))"
  by (simp add: inventoryOK_def DeleteCategoryWithCascade_def Let_def list_all_DeleteMany
        split: sum.splits)

text \<open>
  C2, as stated, fails for \<open>CancelBooking\<close>: it adds the booking's quantity to the
  available count and never compares the sum with the total. In the state \<open>dbC\<close> the
  invariant holds (10 of 10 available, one booking for 3); \<open>CancelBooking\<close> succeeds
  and leaves 13 of 10.
\<close>

theorem CancelBooking_breaks_inventoryOK:
  "inventoryOK dbC \<and> CancelBooking 7 dbC = (Inr (), dbC') \<and> \<not> inventoryOK dbC'"
  by (simp add: inventoryOK_def ticketOK_def store_defs scenarioA_defs dbC_def dbC'_def
        word_sle_eq)

text \<open>
  C2, amended. From a state in which every ticket class has \<open>0 \<le> available \<le> total\<close>:
  \<open>CreateBooking\<close> with a quantity that is not negative leaves such a state, whether it
  succeeds or fails; so do \<open>DeleteBookingsByEventID\<close>, \<open>DeleteEvent\<close>,
  \<open>DeleteExpiredEvents\<close>, \<open>DeleteCategory\<close> and \<open>DeleteCategoryWithCascade\<close>; and so
  does \<open>CancelBooking\<close> provided that, for the booking it finds and the first ticket
  class of the booking's type in the booking's event, the quantity is not negative and
  available plus quantity is at most the total.
\<close>

theorem inventoryOK_preserved:
  assumes "inventoryOK s"
  shows "(0 \<le>s bk_Quantity b \<longrightarrow> inventoryOK (snd (CreateBooking fmul gen now b s)))
   \<and> ((\<forall>booking event i t.
         FindOne (\<lambda>b. bk_ID b = bookingID) (Bookings s) = Some booking \<longrightarrow>
         FindOne (\<lambda>e. ev_ID e = bk_EventID booking) (Events s) = Some event \<longrightarrow>
         scanTickets (bk_TicketType booking) (ev_Tickets event) 0 = Some (i, t) \<longrightarrow>
         0 \<le>s bk_Quantity booking
         \<and> sint (AvailableQuantity t) + sint (bk_Quantity booking) \<le> sint (TotalQuantity t))
       \<longrightarrow> inventoryOK (snd (CancelBooking bookingID s)))
   \<and> inventoryOK (snd (DeleteBookingsByEventID eventID s))
   \<and> inventoryOK (snd (DeleteEvent bookingStore eventID s))
   \<and> inventoryOK (snd (DeleteExpiredEvents bookingStore now' s))
   \<and> inventoryOK (snd (DeleteCategory categoryID s))
   \<and> inventoryOK (snd (DeleteCategoryWithCascade bookingStore categoryID s))"
proof (intro conjI impI)
  assume "0 \<le>s bk_Quantity b"
  with assms show "inventoryOK (snd (CreateBooking fmul gen now b s))"
    by (rule inventoryOK_CreateBooking)
next
  assume h: "\<forall>booking event i t.
         FindOne (\<lambda>b. bk_ID b = bookingID) (Bookings s) = Some booking \<longrightarrow>
         FindOne (\<lambda>e. ev_ID e = bk_EventID booking) (Events s) = Some event \<longrightarrow>
         scanTickets (bk_TicketType booking) (ev_Tickets event) 0 = Some (i, t) \<longrightarrow>
         0 \<le>s bk_Quantity booking
         \<and> sint (AvailableQuantity t) + sint (bk_Quantity booking) \<le> sint (TotalQuantity t)"
  show "inventoryOK (snd (CancelBooking bookingID s))"
    by (rule inventoryOK_CancelBooking [OF assms]) (use h in blast)
qed (simp_all add: assms inventoryOK_DeleteBookingsByEventID inventoryOK_DeleteEvent
       inventoryOK_DeleteExpiredEvents inventoryOK_DeleteCategory
       inventoryOK_DeleteCategoryWithCascade)

theorem inventoryOK_preserved_witness:
  "inventoryOK dbA'
   \<and> inventoryOK (snd (CreateBooking fmulExact 8 43 requestA dbA'))
   \<and> CancelBooking 7 dbA' = (Inr (), dbA) \<and> inventoryOK (snd (CancelBooking 7 dbA'))
   \<and> inventoryOK (snd (DeleteBookingsByEventID 1 dbA'))
   \<and> inventoryOK (snd (DeleteEvent True 1 dbA'))
   \<and> inventoryOK (snd (DeleteExpiredEvents True 3000 dbA'))
   \<and> inventoryOK (snd (DeleteCategory 3 dbA'))
   \<and> inventoryOK (snd (DeleteCategoryWithCascade True 3 dbA'))"
proof -
  have ok: "inventoryOK dbA'"
    by (simp add: inventoryOK_def ticketOK_def scenarioA_defs word_sle_eq)
  have q: "0 \<le>s bk_Quantity requestA"
    by (simp add: requestA_def word_sle_eq)
  have c: "\<forall>booking event i t.
         FindOne (\<lambda>b. bk_ID b = 7) (Bookings dbA') = Some booking \<longrightarrow>
         FindOne (\<lambda>e. ev_ID e = bk_EventID booking) (Events dbA') = Some event \<longrightarrow>
         scanTickets (bk_TicketType booking) (ev_Tickets event) 0 = Some (i, t) \<longrightarrow>
         0 \<le>s bk_Quantity booking
         \<and> sint (AvailableQuantity t) + sint (bk_Quantity booking) \<le> sint (TotalQuantity t)"
    by (auto simp: FindOne_def scenarioA_defs word_sle_eq)
  from inventoryOK_preserved [OF ok, where b = requestA and fmul = fmulExact and gen = 8
      and now = 43 and bookingID = 7 and eventID = 1 and bookingStore = True
      and now' = 3000 and categoryID = 3] q c ok
    scenarioA_cancel
  show ?thesis by blast
qed

section \<open>C1: no oversell\<close>

lemma CreateBooking_step:
  assumes ev: "FindOne (\<lambda>e. ev_ID e = eventID) (Events s) = Some event"
    and sc: "scanTickets ticketType (ev_Tickets event) 0 = Some (i, t)"
    and a0: "0 \<le>s AvailableQuantity t"
    and q: "0 <s bk_Quantity b"
    and ids: "bk_EventID b = eventID" "bk_TicketType b = ticketType"
    and c: "CreateBooking fmul gen now b s = (r, s')"
  shows "\<exists>event' t'.
      FindOne (\<lambda>e. ev_ID e = eventID) (Events s') = Some event'
    \<and> scanTickets ticketType (ev_Tickets event') 0 = Some (i, t')
    \<and> 0 \<le>s AvailableQuantity t'
    \<and> sint (AvailableQuantity t') + grantedQuantity [r] = sint (AvailableQuantity t)"
proof (cases r)
  case (Inl e)
  with c have "s' = s" by (simp add: CreateBooking_failure)
  with ev sc a0 Inl show ?thesis by auto
next
  case (Inr b')
  with c have c': "CreateBooking fmul gen now b s = (Inr b', s')" by simp
  from CreateBooking_success [OF c'] ev sc ids
  have av: "\<not> AvailableQuantity t <s bk_Quantity b"
    and b': "bk_Quantity b' = bk_Quantity b"
    and s': "Events s' = fst (UpdateOne (\<lambda>e. ev_ID e = eventID)
                 (setAvailable i (AvailableQuantity t - bk_Quantity b)) (Events s))"
    by auto
  let ?v = "AvailableQuantity t - bk_Quantity b"
  have le: "bk_Quantity b \<le>s AvailableQuantity t"
    using av by (simp add: word_sle_eq word_sless_alt)
  have pos: "0 \<le>s bk_Quantity b"
    using q by (simp add: word_sle_eq word_sless_alt)
  have exact: "sint ?v = sint (AvailableQuantity t) - sint (bk_Quantity b)"
    by (rule sint_sub_exact [OF le pos])
  have fe: "ev_ID event = eventID" using FindOne_Some_holds [OF ev] by simp
  have 1: "FindOne (\<lambda>e. ev_ID e = eventID) (Events s') = Some (setAvailable i ?v event)"
    using FindOne_UpdateOne [OF ev, of "setAvailable i ?v"] fe by (simp add: s')
  have 2: "scanTickets ticketType (ev_Tickets (setAvailable i ?v event)) 0
             = Some (i, t\<lparr>AvailableQuantity := ?v\<rparr>)"
    by (rule scanTickets_setAvailable [OF sc])
  have 3: "0 \<le>s AvailableQuantity (t\<lparr>AvailableQuantity := ?v\<rparr>)"
    using exact le by (simp add: word_sle_eq)
  have 4: "sint (AvailableQuantity (t\<lparr>AvailableQuantity := ?v\<rparr>)) + grantedQuantity [r]
             = sint (AvailableQuantity t)"
    using exact by (simp add: Inr b')
  from 1 2 3 4 show ?thesis by blast
qed

lemma grantedQuantity_Cons:
  "grantedQuantity (r # rs) = grantedQuantity [r] + grantedQuantity rs"
  by (cases r) simp_all

lemma serialCreateBookings_ledger:
  assumes "FindOne (\<lambda>e. ev_ID e = eventID) (Events s) = Some event"
    and "scanTickets ticketType (ev_Tickets event) 0 = Some (i, t)"
    and "0 \<le>s AvailableQuantity t"
    and "\<forall>(gen, now, b) \<in> set calls.
           bk_EventID b = eventID \<and> bk_TicketType b = ticketType \<and> 0 <s bk_Quantity b"
  shows "\<exists>event' t'.
      FindOne (\<lambda>e. ev_ID e = eventID) (Events (snd (serialCreateBookings fmul calls s)))
        = Some event'
    \<and> scanTickets ticketType (ev_Tickets event') 0 = Some (i, t')
    \<and> 0 \<le>s AvailableQuantity t'
    \<and> sint (AvailableQuantity t') + grantedQuantity (fst (serialCreateBookings fmul calls s))
        = sint (AvailableQuantity t)"
  using assms
proof (induction calls arbitrary: s event t)
  case Nil
  then show ?case by auto
next
  case (Cons call calls)
  obtain gen now b where call: "call = (gen, now, b)" by (cases call)
  obtain r s1 where c: "CreateBooking fmul gen now b s = (r, s1)"
    by (cases "CreateBooking fmul gen now b s")
  from Cons.prems(4) call have b: "bk_EventID b = eventID" "bk_TicketType b = ticketType"
    "0 <s bk_Quantity b" by auto
  from Cons.prems(4) have rest: "\<forall>(gen, now, b) \<in> set calls.
      bk_EventID b = eventID \<and> bk_TicketType b = ticketType \<and> 0 <s bk_Quantity b" by auto
  from CreateBooking_step [OF Cons.prems(1,2,3) b(3,1,2) c] obtain event1 t1 where
    1: "FindOne (\<lambda>e. ev_ID e = eventID) (Events s1) = Some event1"
    "scanTickets ticketType (ev_Tickets event1) 0 = Some (i, t1)"
    "0 \<le>s AvailableQuantity t1"
    and g: "sint (AvailableQuantity t1) + grantedQuantity [r] = sint (AvailableQuantity t)"
    by blast
  from Cons.IH [OF 1 rest] obtain event' t' where
    2: "FindOne (\<lambda>e. ev_ID e = eventID) (Events (snd (serialCreateBookings fmul calls s1)))
        = Some event'"
    "scanTickets ticketType (ev_Tickets event') 0 = Some (i, t')"
    "0 \<le>s AvailableQuantity t'"
    and g': "sint (AvailableQuantity t') + grantedQuantity (fst (serialCreateBookings fmul calls s1))
        = sint (AvailableQuantity t1)"
    by blast
  have "sint (AvailableQuantity t')
          + grantedQuantity (fst (serialCreateBookings fmul (call # calls) s))
        = sint (AvailableQuantity t)"
    using g g' grantedQuantity_Cons [of r "fst (serialCreateBookings fmul calls s1)"]
    by (simp add: call c Let_def)
  moreover have "snd (serialCreateBookings fmul (call # calls) s)
                   = snd (serialCreateBookings fmul calls s1)"
    by (simp add: call c Let_def)
  ultimately show ?case using 2 by auto
qed

text \<open>
  C1. Take a ticket class: the first class \<open>t\<close> of type \<open>ticketType\<close> in the event
  \<open>eventID\<close>, with available count \<open>Q \<ge> 0\<close>. For every list of \<open>CreateBooking\<close>
  calls against that class, each with a positive quantity as the operation's
  precondition asks, run one after the other in the order of the list (every serial
  order of every set of calls is such a list), the quantities of the calls that
  succeed add up to at most \<open>Q\<close>. The witness is scenario B: two requests for 6
  against 10, of which the first succeeds, the second fails with \<open>NotEnoughTickets\<close>,
  and 4 remain.
\<close>

theorem no_oversell:
  fixes s :: "'p db"
  assumes "FindOne (\<lambda>e. ev_ID e = eventID) (Events s) = Some event"
    and "scanTickets ticketType (ev_Tickets event) 0 = Some (i, t)"
    and "0 \<le>s AvailableQuantity t"
    and "\<forall>(gen, now, b) \<in> set calls.
           bk_EventID b = eventID \<and> bk_TicketType b = ticketType \<and> 0 <s bk_Quantity b"
  shows "grantedQuantity (fst (serialCreateBookings fmul calls s)) \<le> sint (AvailableQuantity t)"
proof -
  from serialCreateBookings_ledger [OF assms, of fmul]   obtain t' :: "'p TicketInfo" where
    "0 \<le>s AvailableQuantity t'"
    "sint (AvailableQuantity t') + grantedQuantity (fst (serialCreateBookings fmul calls s))
        = sint (AvailableQuantity t)"
    by blast
  then show ?thesis by (simp add: word_sle_eq)
qed


lemma scenarioB_run:
  "serialCreateBookings fmulExact [(7, 42, requestB), (8, 43, requestB)] dbA
     = ([Inr (requestB\<lparr>bk_ID := 7, bk_TotalPaid := 600, bk_BookedAt := 42\<rparr>),
         Inl NotEnoughTickets],
        \<lparr>Events = [eventA\<lparr>ev_Tickets := [ticketVIP\<lparr>AvailableQuantity := 4\<rparr>]\<rparr>],
         Bookings = [requestB\<lparr>bk_ID := 7, bk_TotalPaid := 600, bk_BookedAt := 42\<rparr>],
         Categories = [categoryMusic]\<rparr>)"
  by (simp add: store_defs scenarioA_defs requestB_def Let_def)

theorem no_oversell_witness:
  "serialCreateBookings fmulExact [(7, 42, requestB), (8, 43, requestB)] dbA
     = ([Inr (requestB\<lparr>bk_ID := 7, bk_TotalPaid := 600, bk_BookedAt := 42\<rparr>),
         Inl NotEnoughTickets],
        \<lparr>Events = [eventA\<lparr>ev_Tickets := [ticketVIP\<lparr>AvailableQuantity := 4\<rparr>]\<rparr>],
         Bookings = [requestB\<lparr>bk_ID := 7, bk_TotalPaid := 600, bk_BookedAt := 42\<rparr>],
         Categories = [categoryMusic]\<rparr>)
   \<and> grantedQuantity (fst (serialCreateBookings fmulExact
         [(7, 42, requestB), (8, 43, requestB)] dbA)) \<le> 10"
proof -
  have e: "FindOne (\<lambda>e. ev_ID e = 1) (Events dbA) = Some eventA"
    by (simp add: FindOne_def scenarioA_defs)
  have t: "scanTickets ''VIP'' (ev_Tickets eventA) 0 = Some (0, ticketVIP)"
    by (simp add: scenarioA_defs)
  have a: "0 \<le>s AvailableQuantity ticketVIP"
    by (simp add: ticketVIP_def word_sle_eq)
  have c: "\<forall>(gen, now, b) \<in> set [(7, 42, requestB), (8, 43, requestB)].
      bk_EventID b = 1 \<and> bk_TicketType b = ''VIP'' \<and> 0 <s bk_Quantity b"
    by (simp add: requestB_def requestA_def word_sless_alt)
  have "sint (AvailableQuantity ticketVIP) = 10"
    by (simp add: ticketVIP_def)
  with no_oversell [OF e t a c, of fmulExact] scenarioB_run show ?thesis by simp
qed

section \<open>Unique identifiers are kept\<close>

text \<open>No operation of the stores makes two documents of a collection share an
  identifier: \<open>InsertOne\<close> refuses a duplicate, updates leave \<^verbatim>\<open>_id\<close> alone.\<close>

lemma set_DeleteOne: "set (fst (DeleteOne f c)) \<subseteq> set c"
  by (induction c) auto

lemma map_id_DeleteOne_distinct:
  "distinct (map idf c) \<Longrightarrow> distinct (map idf (fst (DeleteOne f c)))"
proof (induction c)
  case Nil
  then show ?case by simp
next
  case (Cons a c)
  then show ?case using set_DeleteOne [of f c] by auto
qed

lemma map_id_UpdateOne:
  "(\<And>d. idf (u d) = idf d) \<Longrightarrow> map idf (fst (UpdateOne f u c)) = map idf c"
  by (induction c) auto

lemma uniqueIDs_CreateBooking:
  assumes "uniqueIDs s"
  shows "uniqueIDs (snd (CreateBooking fmul gen now b s))"
proof (cases "CreateBooking fmul gen now b s")
  case (Pair r s')
  show ?thesis
  proof (cases r)
    case (Inl e)
    with Pair assms CreateBooking_failure [of fmul gen now b s e s'] show ?thesis by simp
  next
    case (Inr b')
    with Pair have "CreateBooking fmul gen now b s = (Inr b', s')" by simp
    from CreateBooking_success [OF this] obtain i v where
      "\<not> list_ex (\<lambda>d. bk_ID d = bk_ID b') (Bookings s)"
      "s' = s\<lparr>Events := fst (UpdateOne (\<lambda>e. ev_ID e = bk_EventID b) (setAvailable i v) (Events s)),
              Bookings := Bookings s @ [b']\<rparr>"
      by auto
    with assms show ?thesis
      by (auto simp: Pair uniqueIDs_def map_id_UpdateOne list_ex_iff)
  qed
qed

lemma uniqueIDs_CancelBooking:
  assumes "uniqueIDs s"
  shows "uniqueIDs (snd (CancelBooking bookingID s))"
proof (cases "CancelBooking bookingID s")
  case (Pair r s')
  show ?thesis
  proof (cases r)
    case (Inl e)
    with Pair have "s' = s"
      by (auto simp: CancelBooking_def WithTransaction_def split: sum.splits prod.splits)
    with Pair assms show ?thesis by simp
  next
    case (Inr u)
    with Pair have "CancelBooking bookingID s = (Inr u, s')" by simp
    from CancelBooking_success [OF this] assms show ?thesis
      by (auto simp: Pair uniqueIDs_def map_id_UpdateOne map_id_DeleteOne_distinct
            split: option.splits)
  qed
qed

lemma uniqueIDs_deletions:
  assumes "uniqueIDs s"
  shows "uniqueIDs (snd (DeleteBookingsByEventID eventID s))"
    and "uniqueIDs (snd (DeleteEvent bookingStore eventID s))"
    and "uniqueIDs (snd (DeleteExpiredEvents bookingStore now s))"
    and "uniqueIDs (snd (DeleteCategory categoryID s))"
    and "uniqueIDs (snd (DeleteCategoryWithCascade bookingStore categoryID s))"
  using assms
  by (auto simp: uniqueIDs_def DeleteBookingsByEventID_def DeleteEvent_def
        DeleteExpiredEvents_def DeleteCategory_def DeleteCategoryWithCascade_def
        DeleteMany_def Let_def map_id_DeleteOne_distinct distinct_map_filter
        Bookings_deleteBookingsOfEvents split: sum.splits)

lemma uniqueIDs_creations:
  assumes "uniqueIDs s"
  shows "uniqueIDs (snd (CreateEvent gen now event s))"
    and "uniqueIDs (snd (CreateCategory gen now category s))"
    and "uniqueIDs (snd (UpdateEvent event s))"
  using assms
  by (auto simp: uniqueIDs_def CreateEvent_def CreateCategory_def UpdateEvent_def
        InsertOne_def Let_def list_ex_iff map_id_UpdateOne
        split: sum.splits option.splits if_splits)

section \<open>C9: DeleteEvent\<close>

lemma DeleteOne_count: "snd (DeleteOne f c) = (if list_ex f c then 1 else 0)"
  by (induction c) auto

lemma DeleteOne_no_match: "\<not> list_ex f c \<Longrightarrow> fst (DeleteOne f c) = c"
  by (induction c) auto

text \<open>
  C9. \<open>DeleteEvent\<close>, with the booking store set, first deletes every booking that
  references the event identifier, then deletes the event, and fails with
  \<open>EventNotFound\<close> exactly when no event has that identifier. There is no transaction:
  in the state a failed call leaves, the bookings that referenced the identifier are
  gone all the same, and the events are as they were.
\<close>

theorem DeleteEvent_steps:
  assumes "DeleteEvent True eventID s = (r, s')"
  shows "Bookings s' = filter (\<lambda>b. bk_EventID b \<noteq> eventID) (Bookings s)
   \<and> GetBookingsByEventID eventID s' = []
   \<and> Events s' = fst (DeleteOne (\<lambda>e. ev_ID e = eventID) (Events s))
   \<and> Categories s' = Categories s
   \<and> (r = Inl EventNotFound \<longleftrightarrow> \<not> list_ex (\<lambda>e. ev_ID e = eventID) (Events s))
   \<and> (r = Inr () \<longleftrightarrow> list_ex (\<lambda>e. ev_ID e = eventID) (Events s))
   \<and> (r = Inl EventNotFound \<longrightarrow> Events s' = Events s)"
  using assms
  by (auto simp: DeleteEvent_def DeleteBookingsByEventID_def DeleteMany_def Let_def
        GetBookingsByEventID_def Find_def DeleteOne_count DeleteOne_no_match
        split: if_splits)

theorem DeleteEvent_steps_witness:
  "DeleteEvent True 1 dbOrphan = (Inl EventNotFound, dbOrphan\<lparr>Bookings := []\<rparr>)
   \<and> GetBookingByID (Some 7) dbOrphan = Inr bookingA
   \<and> GetBookingByID (Some 7) (snd (DeleteEvent True 1 dbOrphan)) = Inl BookingNotFound
   \<and> DeleteEvent True 1 dbA' = (Inr (), dbA'\<lparr>Events := [], Bookings := []\<rparr>)"
proof -
  obtain r s' where d: "DeleteEvent True 1 dbOrphan = (r, s')"
    by (cases "DeleteEvent True 1 dbOrphan")
  have n: "\<not> list_ex (\<lambda>e. ev_ID e = 1) (Events dbOrphan)"
    by (simp add: dbOrphan_def)
  from DeleteEvent_steps [OF d] n have "r = Inl EventNotFound"
    and "Bookings s' = filter (\<lambda>b. bk_EventID b \<noteq> 1) (Bookings dbOrphan)"
    and "Events s' = Events dbOrphan" and "Categories s' = Categories dbOrphan"
    by blast+
  then have 1: "r = Inl EventNotFound \<and> s' = dbOrphan\<lparr>Bookings := []\<rparr>"
    by (simp add: dbOrphan_def scenarioA_defs)
  obtain r2 s2 where d2: "DeleteEvent True 1 dbA' = (r2, s2)"
    by (cases "DeleteEvent True 1 dbA'")
  have y: "list_ex (\<lambda>e. ev_ID e = 1) (Events dbA')"
    by (simp add: scenarioA_defs)
  from DeleteEvent_steps [OF d2] y have "r2 = Inr ()"
    and "Bookings s2 = filter (\<lambda>b. bk_EventID b \<noteq> 1) (Bookings dbA')"
    and "Events s2 = fst (DeleteOne (\<lambda>e. ev_ID e = 1) (Events dbA'))"
    and "Categories s2 = Categories dbA'"
    by blast+
  then have 2: "r2 = Inr () \<and> s2 = dbA'\<lparr>Events := [], Bookings := []\<rparr>"
    by (simp add: scenarioA_defs)
  from 1 2 d d2 show ?thesis
    by (simp add: GetBookingByID_def FindOne_def dbOrphan_def scenarioA_defs)
qed

section \<open>C8: DeleteExpiredEvents\<close>

lemma distinct_same_id:
  "distinct (map idf c) \<Longrightarrow> x \<in> set c \<Longrightarrow> y \<in> set c \<Longrightarrow> idf x = idf y \<Longrightarrow> x = y"
  by (simp add: distinct_map inj_on_def)

lemma FindOne_by_id:
  "distinct (map idf c) \<Longrightarrow> d \<in> set c \<Longrightarrow> FindOne (\<lambda>x. idf x = idf d) c = Some d"
proof (induction c)
  case Nil
  then show ?case by simp
next
  case (Cons a c)
  then show ?case by (auto simp: FindOne_def image_iff)
qed

lemma FindOne_kept:
  assumes "distinct (map idf c)" and "d \<in> set c" and "keep d"
  shows "FindOne (\<lambda>x. idf x = idf d) (filter keep c) = Some d"
proof -
  have "distinct (map idf (filter keep c))"
    using assms(1) by (rule distinct_map_filter)
  moreover have "d \<in> set (filter keep c)"
    using assms(2,3) by simp
  ultimately show ?thesis by (rule FindOne_by_id)
qed

lemma FindOne_gone:
  assumes "distinct (map idf c)" and "d \<in> set c" and "\<not> keep d"
  shows "FindOne (\<lambda>x. idf x = idf d) (filter keep c) = None"
proof -
  have "x \<in> set (filter keep c) \<Longrightarrow> idf x \<noteq> idf d" for x
    using distinct_same_id [OF assms(1), of x d] assms(2,3) by auto
  then show ?thesis
    by (auto simp: FindOne_None list_ex_iff)
qed

lemma scenarioD_run:
  "DeleteExpiredEvents True 5600 dbD
     = (1, \<lparr>Events = [eventF], Bookings = [bookingF], Categories = [categoryMusic]\<rparr>)"
  by (simp add: DeleteExpiredEvents_def DeleteBookingsByEventID_def DeleteMany_def Find_def
        Let_def dbD_def eventF_def bookingF_def scenarioA_defs)

text \<open>
  C8. A run of \<open>DeleteExpiredEvents\<close> at time \<open>now\<close>, with the booking store set and
  identifiers unique, removes exactly the events whose end time is strictly before
  \<open>now\<close> and exactly the bookings of those events, and returns the number of events
  removed. Afterwards an expired event and each of its bookings are not found; an
  event whose end time is \<open>now\<close> or later, and each of its bookings, are returned
  unchanged by \<open>GetEventByID\<close> and \<open>GetBookingByID\<close>. The witness is scenario D.
\<close>

theorem DeleteExpiredEvents_result:
  assumes "uniqueIDs s" and "DeleteExpiredEvents True now s = (n, s')"
  shows "Events s' = filter (\<lambda>e. now \<le> ev_EndTime e) (Events s)
   \<and> n = length (filter (\<lambda>e. ev_EndTime e < now) (Events s))
   \<and> Bookings s' = filter (\<lambda>b. \<not> (\<exists>e \<in> set (Events s). ev_EndTime e < now \<and> ev_ID e = bk_EventID b))
                     (Bookings s)
   \<and> Categories s' = Categories s
   \<and> (\<forall>e \<in> set (Events s). ev_EndTime e < now \<longrightarrow>
         GetEventByID (Some (ev_ID e)) s' = Inl EventNotFound
       \<and> (\<forall>b \<in> set (Bookings s). bk_EventID b = ev_ID e \<longrightarrow>
             GetBookingByID (Some (bk_ID b)) s' = Inl BookingNotFound))
   \<and> (\<forall>e \<in> set (Events s). now \<le> ev_EndTime e \<longrightarrow>
         GetEventByID (Some (ev_ID e)) s' = Inr e
       \<and> (\<forall>b \<in> set (Bookings s). bk_EventID b = ev_ID e \<longrightarrow>
             GetBookingByID (Some (bk_ID b)) s' = Inr b))"
proof -
  let ?keepE = "\<lambda>e. now \<le> ev_EndTime e"
  let ?keepB = "\<lambda>b. \<not> (\<exists>e \<in> set (Events s). ev_EndTime e < now \<and> ev_ID e = bk_EventID b)"
  from assms(1) have dE: "distinct (map ev_ID (Events s))"
    and dB: "distinct (map bk_ID (Bookings s))" by (simp_all add: uniqueIDs_def)
  have E: "Events s' = filter ?keepE (Events s)"
    using assms(2) by (auto simp: DeleteExpiredEvents_def Let_def DeleteMany_def not_less)
  have N: "n = length (filter (\<lambda>e. ev_EndTime e < now) (Events s))"
    using assms(2) by (auto simp: DeleteExpiredEvents_def Let_def DeleteMany_def)
  have b0: "Bookings s' = filter (\<lambda>b. bk_EventID b \<notin> ev_ID ` set (Find (\<lambda>e. ev_EndTime e < now) (Events s)))
                        (Bookings s)"
    using assms(2)
    by (auto simp: DeleteExpiredEvents_def Let_def Bookings_deleteBookingsOfEvents)
  have B: "Bookings s' = filter ?keepB (Bookings s)"
    unfolding b0 by (rule filter_cong) (force simp: Find_def)+
  have C: "Categories s' = Categories s"
    using assms(2) by (auto simp: DeleteExpiredEvents_def Let_def)
  have gone: "GetEventByID (Some (ev_ID e)) s' = Inl EventNotFound
       \<and> (\<forall>b \<in> set (Bookings s). bk_EventID b = ev_ID e \<longrightarrow>
             GetBookingByID (Some (bk_ID b)) s' = Inl BookingNotFound)"
    if e: "e \<in> set (Events s)" "ev_EndTime e < now" for e
  proof -
    have "\<not> ?keepE e" using e by simp
    from FindOne_gone [OF dE e(1), of ?keepE, OF this]
    have 1: "GetEventByID (Some (ev_ID e)) s' = Inl EventNotFound"
      by (simp add: GetEventByID_def E)
    have "GetBookingByID (Some (bk_ID b)) s' = Inl BookingNotFound"
      if b: "b \<in> set (Bookings s)" "bk_EventID b = ev_ID e" for b
    proof -
      have "\<not> ?keepB b" using e b by auto
      from FindOne_gone [OF dB b(1), of ?keepB, OF this]
      show ?thesis by (simp add: GetBookingByID_def B)
    qed
    with 1 show ?thesis by blast
  qed
  have kept: "GetEventByID (Some (ev_ID e)) s' = Inr e
       \<and> (\<forall>b \<in> set (Bookings s). bk_EventID b = ev_ID e \<longrightarrow>
             GetBookingByID (Some (bk_ID b)) s' = Inr b)"
    if e: "e \<in> set (Events s)" "now \<le> ev_EndTime e" for e
  proof -
    from FindOne_kept [OF dE e(1), of ?keepE, OF e(2)]
    have 1: "GetEventByID (Some (ev_ID e)) s' = Inr e"
      by (simp add: GetEventByID_def E)
    have "GetBookingByID (Some (bk_ID b)) s' = Inr b"
      if b: "b \<in> set (Bookings s)" "bk_EventID b = ev_ID e" for b
    proof -
      have "?keepB b"
      proof
        assume "\<exists>x \<in> set (Events s). ev_EndTime x < now \<and> ev_ID x = bk_EventID b"
        then obtain x where x: "x \<in> set (Events s)" "ev_EndTime x < now" "ev_ID x = ev_ID e"
          using b(2) by auto
        from distinct_same_id [OF dE x(1) e(1) x(3)] x(2) e(2) show False by simp
      qed
      from FindOne_kept [OF dB b(1), of ?keepB, OF this]
      show ?thesis by (simp add: GetBookingByID_def B)
    qed
    with 1 show ?thesis by blast
  qed
  from E N B C gone kept show ?thesis by blast
qed

theorem DeleteExpiredEvents_result_witness:
  "uniqueIDs dbD
   \<and> DeleteExpiredEvents True 5600 dbD
       = (1, \<lparr>Events = [eventF], Bookings = [bookingF], Categories = [categoryMusic]\<rparr>)
   \<and> GetEventByID (Some 1) (snd (DeleteExpiredEvents True 5600 dbD)) = Inl EventNotFound
   \<and> GetBookingByID (Some 7) (snd (DeleteExpiredEvents True 5600 dbD)) = Inl BookingNotFound
   \<and> GetEventByID (Some 2) (snd (DeleteExpiredEvents True 5600 dbD)) = Inr eventF
   \<and> GetBookingByID (Some 8) (snd (DeleteExpiredEvents True 5600 dbD)) = Inr bookingF"
proof -
  let ?s' = "\<lparr>Events = [eventF], Bookings = [bookingF], Categories = [categoryMusic]\<rparr>"
  have u: "uniqueIDs dbD"
    by (simp add: uniqueIDs_def dbD_def eventF_def bookingF_def scenarioA_defs)
  have m: "eventA \<in> set (Events dbD)" "ev_EndTime eventA < 5600" "ev_ID eventA = 1"
    "eventF \<in> set (Events dbD)" "5600 \<le> ev_EndTime eventF" "ev_ID eventF = 2"
    "bookingA \<in> set (Bookings dbD)" "bk_EventID bookingA = ev_ID eventA" "bk_ID bookingA = 7"
    "bookingF \<in> set (Bookings dbD)" "bk_EventID bookingF = ev_ID eventF" "bk_ID bookingF = 8"
    by (simp_all add: dbD_def eventF_def bookingF_def scenarioA_defs)
  from DeleteExpiredEvents_result [OF u scenarioD_run]
  have gone: "\<forall>e \<in> set (Events dbD). ev_EndTime e < 5600 \<longrightarrow>
         GetEventByID (Some (ev_ID e)) ?s' = Inl EventNotFound
       \<and> (\<forall>b \<in> set (Bookings dbD). bk_EventID b = ev_ID e \<longrightarrow>
             GetBookingByID (Some (bk_ID b)) ?s' = Inl BookingNotFound)"
    and kept: "\<forall>e \<in> set (Events dbD). 5600 \<le> ev_EndTime e \<longrightarrow>
         GetEventByID (Some (ev_ID e)) ?s' = Inr e
       \<and> (\<forall>b \<in> set (Bookings dbD). bk_EventID b = ev_ID e \<longrightarrow>
             GetBookingByID (Some (bk_ID b)) ?s' = Inr b)"
    by blast+
  from gone [rule_format, OF m(1,2)] m(3,7,8,9)
  have 1: "GetEventByID (Some 1) ?s' = Inl EventNotFound"
    "GetBookingByID (Some 7) ?s' = Inl BookingNotFound"
    by auto
  from kept [rule_format, OF m(4,5)] m(6,10,11,12)
  have 2: "GetEventByID (Some 2) ?s' = Inr eventF"
    "GetBookingByID (Some 8) ?s' = Inr bookingF"
    by auto
  from u 1 2 show ?thesis by (simp add: scenarioD_run)
qed

section \<open>C7: DeleteCategoryWithCascade\<close>

lemma DeleteCategoryWithCascade_found:
  assumes "FindOne (\<lambda>c. cat_ID c = categoryID) (Categories s) = Some category"
  shows "DeleteCategoryWithCascade True categoryID s =
    (Inr (), \<lparr>Events = filter (\<lambda>e. ev_CategoryName e \<noteq> cat_Name category) (Events s),
       Bookings = filter (\<lambda>b. \<not> (\<exists>e \<in> set (Events s).
                      ev_CategoryName e = cat_Name category \<and> ev_ID e = bk_EventID b))
                    (Bookings s),
       Categories = fst (DeleteOne (\<lambda>c. cat_ID c = categoryID) (Categories s))\<rparr>)"
proof -
  let ?P = "\<lambda>e. ev_CategoryName e = cat_Name category"
  have ex: "list_ex (\<lambda>c. cat_ID c = categoryID) (Categories s)"
    using assms by (metis FindOne_None option.distinct(1))
  have b: "filter (\<lambda>b. bk_EventID b \<notin> ev_ID ` set (Find ?P (Events s))) (Bookings s)
         = filter (\<lambda>b. \<not> (\<exists>e \<in> set (Events s). ?P e \<and> ev_ID e = bk_EventID b)) (Bookings s)"
    by (rule filter_cong) (force simp: Find_def)+
  show ?thesis
    by (simp add: DeleteCategoryWithCascade_def GetCategoryByID_def getEventsByCategory_def
          assms Let_def DeleteOne_count ex DeleteMany_def Bookings_deleteBookingsOfEvents b)
qed

lemma scenarioC_run:
  "DeleteCategoryWithCascade True 3 dbD = (Inr (), \<lparr>Events = [], Bookings = [], Categories = []\<rparr>)"
  by (simp add: DeleteCategoryWithCascade_def GetCategoryByID_def getEventsByCategory_def
        FindOne_def Find_def DeleteBookingsByEventID_def DeleteMany_def
        Let_def dbD_def eventF_def bookingF_def scenarioA_defs)

text \<open>
  C7. \<open>DeleteCategoryWithCascade\<close>, with the booking store set and identifiers unique,
  first resolves the category: when there is none with the identifier it fails with
  \<open>CategoryNotFound\<close> and has written nothing. Otherwise it succeeds, and the steps it
  takes in order (list the events whose category name is the category's name, delete
  the bookings of each, delete those events in bulk, delete the category) leave: the
  category removed, exactly the events with that category name removed, exactly the
  bookings of those events removed. Afterwards \<open>GetCategoryByID\<close> fails with
  \<open>CategoryNotFound\<close>, and every such event and every booking of such an event is not
  found. The witness is scenario C: a category owning two events with one booking each.
\<close>

theorem DeleteCategoryWithCascade_result:
  assumes "uniqueIDs s"
    and "DeleteCategoryWithCascade True categoryID s = (r, s')"
  shows "(FindOne (\<lambda>c. cat_ID c = categoryID) (Categories s) = None
            \<longrightarrow> r = Inl CategoryNotFound \<and> s' = s)
   \<and> (\<forall>category. FindOne (\<lambda>c. cat_ID c = categoryID) (Categories s) = Some category \<longrightarrow>
         r = Inr ()
       \<and> Categories s' = fst (DeleteOne (\<lambda>c. cat_ID c = categoryID) (Categories s))
       \<and> Events s' = filter (\<lambda>e. ev_CategoryName e \<noteq> cat_Name category) (Events s)
       \<and> Bookings s' = filter (\<lambda>b. \<not> (\<exists>e \<in> set (Events s).
                          ev_CategoryName e = cat_Name category \<and> ev_ID e = bk_EventID b))
                        (Bookings s)
       \<and> GetCategoryByID categoryID s' = Inl CategoryNotFound
       \<and> (\<forall>e \<in> set (Events s). ev_CategoryName e = cat_Name category \<longrightarrow>
             GetEventByID (Some (ev_ID e)) s' = Inl EventNotFound
           \<and> (\<forall>b \<in> set (Bookings s). bk_EventID b = ev_ID e \<longrightarrow>
                 GetBookingByID (Some (bk_ID b)) s' = Inl BookingNotFound)))"
proof (intro conjI)
  show "FindOne (\<lambda>c. cat_ID c = categoryID) (Categories s) = None
          \<longrightarrow> r = Inl CategoryNotFound \<and> s' = s"
    using assms(2) by (auto simp: DeleteCategoryWithCascade_def GetCategoryByID_def)
next
  show "\<forall>category. FindOne (\<lambda>c. cat_ID c = categoryID) (Categories s) = Some category \<longrightarrow>
         r = Inr ()
       \<and> Categories s' = fst (DeleteOne (\<lambda>c. cat_ID c = categoryID) (Categories s))
       \<and> Events s' = filter (\<lambda>e. ev_CategoryName e \<noteq> cat_Name category) (Events s)
       \<and> Bookings s' = filter (\<lambda>b. \<not> (\<exists>e \<in> set (Events s).
                          ev_CategoryName e = cat_Name category \<and> ev_ID e = bk_EventID b))
                        (Bookings s)
       \<and> GetCategoryByID categoryID s' = Inl CategoryNotFound
       \<and> (\<forall>e \<in> set (Events s). ev_CategoryName e = cat_Name category \<longrightarrow>
             GetEventByID (Some (ev_ID e)) s' = Inl EventNotFound
           \<and> (\<forall>b \<in> set (Bookings s). bk_EventID b = ev_ID e \<longrightarrow>
                 GetBookingByID (Some (bk_ID b)) s' = Inl BookingNotFound))"
  proof (intro allI impI)
    fix category
    assume f: "FindOne (\<lambda>c. cat_ID c = categoryID) (Categories s) = Some category"
    let ?P = "\<lambda>e. ev_CategoryName e = cat_Name category"
    let ?keepE = "\<lambda>e. ev_CategoryName e \<noteq> cat_Name category"
    let ?keepB = "\<lambda>b. \<not> (\<exists>e \<in> set (Events s). ?P e \<and> ev_ID e = bk_EventID b)"
    from assms(1) have dE: "distinct (map ev_ID (Events s))"
      and dB: "distinct (map bk_ID (Bookings s))"
      and dC: "distinct (map cat_ID (Categories s))" by (simp_all add: uniqueIDs_def)
    from DeleteCategoryWithCascade_found [OF f] assms(2)
    have r: "r = Inr ()"
      and C: "Categories s' = fst (DeleteOne (\<lambda>c. cat_ID c = categoryID) (Categories s))"
      and E: "Events s' = filter ?keepE (Events s)"
      and B: "Bookings s' = filter ?keepB (Bookings s)"
      by auto
    have G: "GetCategoryByID categoryID s' = Inl CategoryNotFound"
      using DeleteOne_distinct_gone [OF dC, of categoryID]
      by (simp add: GetCategoryByID_def C FindOne_None [symmetric] split: option.splits)
    have D: "\<forall>e \<in> set (Events s). ?P e \<longrightarrow>
               GetEventByID (Some (ev_ID e)) s' = Inl EventNotFound
             \<and> (\<forall>b \<in> set (Bookings s). bk_EventID b = ev_ID e \<longrightarrow>
                   GetBookingByID (Some (bk_ID b)) s' = Inl BookingNotFound)"
    proof (intro ballI impI conjI)
      fix e assume e: "e \<in> set (Events s)" "?P e"
      then have "\<not> ?keepE e" by simp
      from FindOne_gone [OF dE e(1), of ?keepE, OF this]
      show "GetEventByID (Some (ev_ID e)) s' = Inl EventNotFound"
        by (simp add: GetEventByID_def E)
      fix b assume b: "b \<in> set (Bookings s)" "bk_EventID b = ev_ID e"
      have "\<not> ?keepB b" using e b by auto
      from FindOne_gone [OF dB b(1), of ?keepB, OF this]
      show "GetBookingByID (Some (bk_ID b)) s' = Inl BookingNotFound"
        by (simp add: GetBookingByID_def B)
    qed
    from r C E B G D
    show "r = Inr ()
       \<and> Categories s' = fst (DeleteOne (\<lambda>c. cat_ID c = categoryID) (Categories s))
       \<and> Events s' = filter ?keepE (Events s)
       \<and> Bookings s' = filter ?keepB (Bookings s)
       \<and> GetCategoryByID categoryID s' = Inl CategoryNotFound
       \<and> (\<forall>e \<in> set (Events s). ?P e \<longrightarrow>
             GetEventByID (Some (ev_ID e)) s' = Inl EventNotFound
           \<and> (\<forall>b \<in> set (Bookings s). bk_EventID b = ev_ID e \<longrightarrow>
                 GetBookingByID (Some (bk_ID b)) s' = Inl BookingNotFound))"
      by (intro conjI)
  qed
qed

theorem DeleteCategoryWithCascade_result_witness:
  "uniqueIDs dbD
   \<and> GetCategoryByID 3 dbD = Inr categoryMusic
   \<and> GetEventByID (Some 1) dbD = Inr eventA \<and> GetEventByID (Some 2) dbD = Inr eventF
   \<and> GetBookingByID (Some 7) dbD = Inr bookingA \<and> GetBookingByID (Some 8) dbD = Inr bookingF
   \<and> fst (DeleteCategoryWithCascade True 3 dbD) = Inr ()
   \<and> GetCategoryByID 3 (snd (DeleteCategoryWithCascade True 3 dbD)) = Inl CategoryNotFound
   \<and> GetEventByID (Some 1) (snd (DeleteCategoryWithCascade True 3 dbD)) = Inl EventNotFound
   \<and> GetEventByID (Some 2) (snd (DeleteCategoryWithCascade True 3 dbD)) = Inl EventNotFound
   \<and> GetBookingByID (Some 7) (snd (DeleteCategoryWithCascade True 3 dbD)) = Inl BookingNotFound
   \<and> GetBookingByID (Some 8) (snd (DeleteCategoryWithCascade True 3 dbD)) = Inl BookingNotFound"
proof -
  let ?s' = "\<lparr>Events = [], Bookings = [], Categories = []\<rparr> :: real db"
  have u: "uniqueIDs dbD"
    by (simp add: uniqueIDs_def dbD_def eventF_def bookingF_def scenarioA_defs)
  have c: "FindOne (\<lambda>c. cat_ID c = 3) (Categories dbD) = Some categoryMusic"
    by (simp add: FindOne_def dbD_def categoryMusic_def)
  have before: "GetCategoryByID 3 dbD = Inr categoryMusic"
    "GetEventByID (Some 1) dbD = Inr eventA" "GetEventByID (Some 2) dbD = Inr eventF"
    "GetBookingByID (Some 7) dbD = Inr bookingA" "GetBookingByID (Some 8) dbD = Inr bookingF"
    by (simp_all add: GetCategoryByID_def GetEventByID_def GetBookingByID_def FindOne_def
          dbD_def eventF_def bookingF_def scenarioA_defs)
  have m: "eventA \<in> set (Events dbD)" "ev_CategoryName eventA = cat_Name categoryMusic"
    "ev_ID eventA = 1"
    "eventF \<in> set (Events dbD)" "ev_CategoryName eventF = cat_Name categoryMusic"
    "ev_ID eventF = 2"
    "bookingA \<in> set (Bookings dbD)" "bk_EventID bookingA = ev_ID eventA" "bk_ID bookingA = 7"
    "bookingF \<in> set (Bookings dbD)" "bk_EventID bookingF = ev_ID eventF" "bk_ID bookingF = 8"
    by (simp_all add: dbD_def eventF_def bookingF_def scenarioA_defs)
  from DeleteCategoryWithCascade_result [OF u scenarioC_run] c
  have cat: "GetCategoryByID 3 ?s' = Inl CategoryNotFound"
    and gone: "\<forall>e \<in> set (Events dbD). ev_CategoryName e = cat_Name categoryMusic \<longrightarrow>
             GetEventByID (Some (ev_ID e)) ?s' = Inl EventNotFound
           \<and> (\<forall>b \<in> set (Bookings dbD). bk_EventID b = ev_ID e \<longrightarrow>
                 GetBookingByID (Some (bk_ID b)) ?s' = Inl BookingNotFound)"
    by blast+
  from gone [rule_format, OF m(1,2)] m(3,7,8,9)
  have 1: "GetEventByID (Some 1) ?s' = Inl EventNotFound"
    "GetBookingByID (Some 7) ?s' = Inl BookingNotFound"
    by auto
  from gone [rule_format, OF m(4,5)] m(6,10,11,12)
  have 2: "GetEventByID (Some 2) ?s' = Inl EventNotFound"
    "GetBookingByID (Some 8) ?s' = Inl BookingNotFound"
    by auto
  from u before cat 1 2 show ?thesis by (simp add: scenarioC_run)
qed

section \<open>C10: category names that differ in letter case\<close>






end
